theory Spec2Isabelle
  imports Main "HOL-Library.Sublist" "HOL-Library.AList"
begin

section \<open>Python values used by \<open>docker_runtime.py\<close>\<close>

subsection \<open>Exceptions\<close>

text \<open>
  The exception classes the module raises, catches or tests with \<open>isinstance\<close>. A
  constructor stands for an instance of the class of that name or of one of its
  subclasses; the argument, where there is one, is \<open>str(e)\<close>.

  \<open>docker.errors.NotFound\<close> is a subclass of \<open>docker.errors.APIError\<close>; the constructor
  \<open>APIError\<close> stands for the API errors that are not \<open>NotFound\<close>.
  \<open>tenacity.RetryError\<close> carries the exception of its last attempt, if that attempt
  raised one.

  \<open>AgentRuntimeDisconnectedError\<close> and \<open>AgentRuntimeNotFoundError\<close> are imported from
  \<open>openhands.core.exceptions\<close>; they are classes of their own, derived from \<open>Exception\<close>
  through the runtime-error base classes of that module, and so are instances of none
  of the \<open>docker\<close>, \<open>httpx\<close> or builtin connection classes.
\<close>

datatype exn =
    NotFound string
  | APIError string
  | ConnectTimeout
  | ConnectionError
  | NetworkError
  | RemoteProtocolError
  | HTTPStatusError
  | RetryError "exn option"
  | AgentRuntimeDisconnectedError string
  | AgentRuntimeNotFoundError string
  | ValueError string
  | UnboundLocalError string
  | KeyError string
  | OtherException string

text \<open>\<open>isinstance(e, docker.errors.APIError)\<close>\<close>

fun is_APIError :: "exn \<Rightarrow> bool" where
  "is_APIError (APIError m) = True"
| "is_APIError (NotFound m) = True"
| "is_APIError e = False"

text \<open>\<open>str(e)\<close> for the exceptions whose text the module reads.\<close>

fun str_exn :: "exn \<Rightarrow> string" where
  "str_exn (NotFound m) = m"
| "str_exn (APIError m) = m"
| "str_exn (AgentRuntimeDisconnectedError m) = m"
| "str_exn (AgentRuntimeNotFoundError m) = m"
| "str_exn (ValueError m) = m"
| "str_exn (UnboundLocalError m) = m"
| "str_exn (KeyError m) = m"
| "str_exn (OtherException m) = m"
| "str_exn e = []"

subsection \<open>Strings\<close>

text \<open>\<open>s.startswith(p)\<close> and \<open>needle in hay\<close> on strings.\<close>

definition startswith :: "string \<Rightarrow> string \<Rightarrow> bool" where
  "startswith s p = prefix p s"

definition str_in :: "string \<Rightarrow> string \<Rightarrow> bool" where
  "str_in needle hay = sublist needle hay"

text \<open>\<open>str(n)\<close> for an integer: decimal digits, with a minus sign when negative.\<close>

definition digit_char :: "nat \<Rightarrow> char" where
  "digit_char d = ''0123456789'' ! d"

function str_nat :: "nat \<Rightarrow> string" where
  "str_nat n = (if n < 10 then [digit_char n] else str_nat (n div 10) @ [digit_char (n mod 10)])"
  by pat_completeness auto
termination
  by (relation "measure id") auto

declare str_nat.simps [simp del]

definition str_int :: "int \<Rightarrow> string" where
  "str_int i = (if i < 0 then CHR ''-'' # str_nat (nat (- i)) else str_nat (nat i))"

text \<open>
  \<open>int(s)\<close> in base ten: surrounding whitespace is stripped, a sign may lead, and the
  digits may be grouped by single underscores; anything else is a \<open>ValueError\<close>.
  Only ASCII whitespace and ASCII digits are covered.
\<close>

definition digit_val :: "char \<Rightarrow> nat option" where
  "digit_val c = (let n = of_char c :: nat in if 48 \<le> n \<and> n \<le> 57 then Some (n - 48) else None)"

definition is_space :: "char \<Rightarrow> bool" where
  "is_space c = (let n = of_char c :: nat in n = 32 \<or> (9 \<le> n \<and> n \<le> 13) \<or> (28 \<le> n \<and> n \<le> 31))"

definition strip :: "string \<Rightarrow> string" where
  "strip s = rev (dropWhile is_space (rev (dropWhile is_space s)))"

fun parse_digits :: "nat \<Rightarrow> string \<Rightarrow> nat option" where
  "parse_digits acc [] = Some acc"
| "parse_digits acc (c # cs) =
     (if c = CHR ''_'' then
        (case cs of
           [] \<Rightarrow> None
         | d # ds \<Rightarrow> (case digit_val d of None \<Rightarrow> None | Some v \<Rightarrow> parse_digits (10 * acc + v) ds))
      else (case digit_val c of None \<Rightarrow> None | Some v \<Rightarrow> parse_digits (10 * acc + v) cs))"

text \<open>The number a string of digits stands for, read after the digits that gave \<open>acc\<close>.\<close>

definition digits_value :: "nat \<Rightarrow> string \<Rightarrow> nat" where
  "digits_value acc s =
     foldl (\<lambda>a c. 10 * a + (case digit_val c of None \<Rightarrow> 0 | Some v \<Rightarrow> v)) acc s"

definition parse_decimal :: "string \<Rightarrow> nat option" where
  "parse_decimal u =
     (case u of
        [] \<Rightarrow> None
      | c # cs \<Rightarrow> (case digit_val c of None \<Rightarrow> None | Some v \<Rightarrow> parse_digits v cs))"

definition py_int :: "string \<Rightarrow> exn + int" where
  "py_int s =
     (let t = strip s;
          neg = (case t of [] \<Rightarrow> False | c # r \<Rightarrow> c = CHR ''-'');
          u = (case t of [] \<Rightarrow> [] | c # r \<Rightarrow> if c = CHR ''-'' \<or> c = CHR ''+'' then r else t)
      in case parse_decimal u of
           None \<Rightarrow> Inl (ValueError s)
         | Some n \<Rightarrow> Inr (if neg then - int n else int n))"

text \<open>
  \<open>s.split(sep)\<close> for a non-empty separator: the pieces between the occurrences of
  \<open>sep\<close>, found from the left without overlap. There is always at least one piece.
\<close>

function split_from :: "string \<Rightarrow> string \<Rightarrow> string \<Rightarrow> string list" where
  "split_from sep acc [] = [rev acc]"
| "split_from sep acc (c # cs) =
     (if sep \<noteq> [] \<and> prefix sep (c # cs)
      then rev acc # split_from sep [] (drop (length sep) (c # cs))
      else split_from sep (c # acc) cs)"
  by pat_completeness auto
termination
  by (relation "measure (\<lambda>(sep, acc, s). length s)") auto

definition split :: "string \<Rightarrow> string \<Rightarrow> string list" where
  "split s sep = split_from sep [] s"

text \<open>\<open>sep.join(xs)\<close>\<close>

fun join :: "string \<Rightarrow> string list \<Rightarrow> string" where
  "join sep [] = []"
| "join sep [x] = x"
| "join sep (x # y # ys) = x @ sep @ join sep (y # ys)"

text \<open>\<open>s.lower()\<close> on ASCII letters.\<close>

definition lower_char :: "char \<Rightarrow> char" where
  "lower_char c =
     (case map_of (zip ''ABCDEFGHIJKLMNOPQRSTUVWXYZ'' ''abcdefghijklmnopqrstuvwxyz'') c of
        Some l \<Rightarrow> l
      | None \<Rightarrow> c)"

definition lower :: "string \<Rightarrow> string" where
  "lower s = map lower_char s"

text \<open>
  \<open>repr\<close> of a string that holds no quote, backslash or control character (port
  numbers, addresses and key names are such strings): the text between single quotes.
\<close>

definition repr_str :: "string \<Rightarrow> string" where
  "repr_str s = [CHR 0x27] @ s @ [CHR 0x27]"

section \<open>The port allocator\<close>

text \<open>
  \<open>container.ports\<close> of a running container: a dict from \<open>'<port>/<proto>'\<close> to the list
  of host bindings of that port, or \<open>None\<close> when the port is exposed and not published.
\<close>

record port_binding =
  HostIp :: string
  HostPort :: string

type_synonym container_ports = "(string \<times> port_binding list option) list"

definition str_binding :: "port_binding \<Rightarrow> string" where
  "str_binding b =
     ''{'' @ repr_str ''HostIp'' @ '': '' @ repr_str (HostIp b) @ '', '' @
     repr_str ''HostPort'' @ '': '' @ repr_str (HostPort b) @ ''}''"

definition str_bindings :: "port_binding list option \<Rightarrow> string" where
  "str_bindings v =
     (case v of None \<Rightarrow> ''None'' | Some bs \<Rightarrow> ''['' @ join '', '' (map str_binding bs) @ '']'')"

definition str_item :: "string \<times> port_binding list option \<Rightarrow> string" where
  "str_item kv = repr_str (fst kv) @ '': '' @ str_bindings (snd kv)"

text \<open>\<open>str(container_ports)\<close>\<close>

definition str_ports :: "container_ports \<Rightarrow> string" where
  "str_ports cp = ''{'' @ join '', '' (map str_item cp) @ ''}''"

text \<open>
  \<open>_is_port_in_use_docker\<close>, given what \<open>self.docker_client.containers.list()\<close> answered:
  the \<open>ports\<close> of each running container.
\<close>

fun is_port_in_use_docker :: "container_ports list \<Rightarrow> int \<Rightarrow> bool" where
  "is_port_in_use_docker [] port = False"
| "is_port_in_use_docker (container_ports # containers) port =
     (if str_in (str_int port) (str_ports container_ports) then True
      else is_port_in_use_docker containers port)"

text \<open>
  \<open>_find_available_port\<close>. \<open>find_available_tcp_port\<close> (of \<open>openhands.runtime.utils\<close>) is
  not part of this module and is a parameter: \<open>tcp k\<close> is the candidate its call in
  round \<open>k\<close> of the loop returns, and \<open>containers_list k\<close> is what the engine lists in
  that round. \<open>find_loop\<close> is the \<open>for\<close> loop: \<open>k\<close> counts the rounds done, \<open>n\<close> the rounds
  left, \<open>port\<close> is the variable of that name. Both queries are taken to answer; the
  function handles no exception of theirs.
\<close>

fun find_loop ::
  "(nat \<Rightarrow> int) \<Rightarrow> (nat \<Rightarrow> container_ports list) \<Rightarrow> nat \<Rightarrow> nat \<Rightarrow> int \<Rightarrow> int" where
  "find_loop tcp containers_list k 0 port = port"
| "find_loop tcp containers_list k (Suc n) port =
     (if \<not> is_port_in_use_docker (containers_list k) (tcp k) then tcp k
      else find_loop tcp containers_list (Suc k) n (tcp k))"

definition find_available_port ::
  "(int \<Rightarrow> int \<Rightarrow> nat \<Rightarrow> int) \<Rightarrow> (nat \<Rightarrow> container_ports list) \<Rightarrow> int \<times> int \<Rightarrow> int \<Rightarrow> int" where
  "find_available_port find_available_tcp_port containers_list port_range max_attempts =
     find_loop (find_available_tcp_port (fst port_range) (snd port_range)) containers_list
       0 (nat max_attempts) (snd port_range)"

text \<open>
  A container publishes port \<open>p\<close> when \<open>p\<close> is the host port of one of its bindings, or
  the container port of one of its entries.
\<close>

definition publishes :: "container_ports \<Rightarrow> int \<Rightarrow> bool" where
  "publishes cp p =
     list_ex (\<lambda>kv. fst kv = str_int p @ ''/tcp'' \<or>
                   (case snd kv of None \<Rightarrow> False
                    | Some bs \<Rightarrow> list_ex (\<lambda>b. HostPort b = str_int p) bs)) cp"

section \<open>Configuration, runtime object and engine\<close>

text \<open>
  A dict is an association list in insertion order: assigning to a key that is
  present replaces its value in place, a new key goes to the end. \<open>dict_update\<close> is
  \<open>d.update(other)\<close>.
\<close>

definition dict_update :: "('k \<times> 'v) list \<Rightarrow> ('k \<times> 'v) list \<Rightarrow> ('k \<times> 'v) list" where
  "dict_update d other = fold (\<lambda>kv acc. AList.update (fst kv) (snd kv) acc) other d"

text \<open>\<open>x or default\<close> for an optional string: \<open>None\<close> and the empty string are falsy.\<close>

definition or_default :: "string option \<Rightarrow> string \<Rightarrow> string" where
  "or_default x d = (case x of None \<Rightarrow> d | Some v \<Rightarrow> if v = [] then d else v)"

definition CONTAINER_NAME_PREFIX :: string where
  "CONTAINER_NAME_PREFIX = ''openhands-runtime-''"

definition EXECUTION_SERVER_PORT_RANGE :: "int \<times> int" where
  "EXECUTION_SERVER_PORT_RANGE = (30000, 39999)"

definition VSCODE_PORT_RANGE :: "int \<times> int" where
  "VSCODE_PORT_RANGE = (40000, 49999)"

definition APP_PORT_RANGE_1 :: "int \<times> int" where
  "APP_PORT_RANGE_1 = (50000, 54999)"

definition APP_PORT_RANGE_2 :: "int \<times> int" where
  "APP_PORT_RANGE_2 = (55000, 59999)"

text \<open>
  The fields of \<open>self.config\<close> and \<open>self.config.sandbox\<close> the module reads, with the
  module-level \<open>DEBUG\<close> and \<open>DEBUG_RUNTIME\<close> flags and \<open>os.name == 'nt'\<close>.
  \<open>local_runtime_url\<close> is a string: \<open>__init__\<close> always sets it.
\<close>

record config =
  use_host_network :: bool
  runtime_binding_address :: "string option"
  platform :: "string option"
  config_debug :: bool
  DEBUG :: bool
  DEBUG_RUNTIME :: bool
  os_name_nt :: bool
  runtime_startup_env_vars :: "(string \<times> string) list"
  workspace_mount_path :: "string option"
  workspace_mount_path_in_sandbox :: "string option"
  enable_gpu :: bool
  local_runtime_url :: string
  keep_runtime_alive :: bool
  rm_all_containers :: bool

text \<open>
  What the engine reports of a container: \<open>status\<close>, \<open>attrs['Config']['Env']\<close>, the keys
  of \<open>attrs['Config'].get('ExposedPorts')\<close> in their order (\<open>None\<close> when the entry is
  absent or null), and \<open>attrs['NetworkSettings']\<close> with its \<open>IPAddress\<close> and \<open>Gateway\<close>
  entries (\<open>None\<close> when absent).
\<close>

record network_settings =
  IPAddress :: "string option"
  Gateway :: "string option"

record container =
  status :: string
  Env :: "string list"
  ExposedPorts :: "string list option"
  NetworkSettings :: "network_settings option"

text \<open>
  The keyword arguments of \<open>docker_client.containers.run\<close> that vary; the constant ones
  (\<open>entrypoint=[]\<close>, \<open>working_dir\<close>, \<open>detach=True\<close>) and the pass-through
  \<open>docker_runtime_kwargs\<close> are left out. \<open>device_requests\<close> is a GPU request or \<open>None\<close>.
\<close>

record creation_spec =
  image :: "string option"
  command :: "string list"
  network_mode :: "string option"
  ports :: "(string \<times> port_binding list) list option"
  name :: string
  environment :: "(string \<times> string) list"
  volumes :: "(string \<times> string \<times> string) option"
  extra_hosts :: "(string \<times> string) list"
  device_requests :: bool

text \<open>
  What a run does to the outside, in order: status messages, engine calls, calls of
  the collaborators (\<open>stop_all_containers\<close>, \<open>build_runtime_image\<close>, the base class's
  \<open>close\<close>, \<open>check_if_alive\<close> and \<open>setup_initial_env\<close>, the log streamer) and sleeps.
  Calls of \<open>self.log\<close> and \<open>logger\<close> are left out: they change neither the state nor the
  control flow. The queries of the port allocator are answered by its parameters and
  are not listed.
\<close>

datatype event =
    Status string
  | EngineVersion
  | ContainersGet string
  | ContainerStart
  | ContainerLogs
  | ContainerExecRun
  | ContainersRun creation_spec
  | StopAllContainers string
  | SuperClose
  | LogStreamerClose
  | BuildRuntimeImage
  | Sleep nat
  | CheckIfAlive
  | SetupInitialEnv
  | ContainerRemove
  | ClientClose nat

text \<open>
  The attributes of a \<open>DockerRuntime\<close> the module reads or writes. \<open>log_streamer\<close> tells
  whether a \<open>LogStreamer\<close> is attached; \<open>vscode_enabled\<close> is the base class's property.
\<close>

record runtime =
  container_name :: string
  attach_to_existing :: bool
  vscode_enabled :: bool
  host_port :: int
  container_port :: int
  vscode_port :: int
  app_ports :: "int list"
  api_url :: string
  container :: "container option"
  base_container_image :: "string option"
  runtime_container_image :: "string option"
  log_streamer :: bool
  runtime_initialized :: bool

text \<open>\<open>xs[i]\<close> for \<open>i \<ge> 0\<close>: an \<open>IndexError\<close> out of range.\<close>

definition index :: "'a list \<Rightarrow> nat \<Rightarrow> exn + 'a" where
  "index xs i = (if i < length xs then Inr (xs ! i) else Inl (OtherException ''IndexError''))"

section \<open>\<open>close\<close>\<close>

definition close :: "config \<Rightarrow> runtime \<Rightarrow> event list" where
  "close cfg self =
     [SuperClose] @ (if log_streamer self then [LogStreamerClose] else []) @
     (if keep_runtime_alive cfg \<or> attach_to_existing self then []
      else [StopAllContainers
              (if rm_all_containers cfg then CONTAINER_NAME_PREFIX else container_name self)])"

section \<open>\<open>_attach_to_container\<close>\<close>

text \<open>
  The loop over \<open>config['Env']\<close>. An \<open>int()\<close> that fails ends the loop with its error; the
  assignments made before it stay.
\<close>

fun read_env :: "string list \<Rightarrow> runtime \<Rightarrow> (exn + unit) \<times> runtime" where
  "read_env [] self = (Inr (), self)"
| "read_env (env_var # rest) self =
     (if startswith env_var ''port='' then
        (case index (split env_var ''port='') 1 of
           Inl e \<Rightarrow> (Inl e, self)
         | Inr s \<Rightarrow>
             (case py_int s of
                Inl e \<Rightarrow> (Inl e, self)
              | Inr p \<Rightarrow> read_env rest (self\<lparr>host_port := p, container_port := p\<rparr>)))
      else if startswith env_var ''VSCODE_PORT='' then
        (case index (split env_var ''VSCODE_PORT='') 1 of
           Inl e \<Rightarrow> (Inl e, self)
         | Inr s \<Rightarrow>
             (case py_int s of
                Inl e \<Rightarrow> (Inl e, self)
              | Inr p \<Rightarrow> read_env rest (self\<lparr>vscode_port := p\<rparr>)))
      else read_env rest self)"

text \<open>The loop over \<open>exposed_ports.keys()\<close>.\<close>

fun read_exposed :: "string list \<Rightarrow> runtime \<Rightarrow> (exn + unit) \<times> runtime" where
  "read_exposed [] self = (Inr (), self)"
| "read_exposed (exposed_port # rest) self =
     (case index (split exposed_port ''/tcp'') 0 of
        Inl e \<Rightarrow> (Inl e, self)
      | Inr s \<Rightarrow>
          (case py_int s of
             Inl e \<Rightarrow> (Inl e, self)
           | Inr p \<Rightarrow>
               if p \<noteq> host_port self \<and> p \<noteq> vscode_port self
               then read_exposed rest (self\<lparr>app_ports := app_ports self @ [p]\<rparr>)
               else read_exposed rest self))"

text \<open>
  \<open>_attach_to_container\<close>; \<open>got\<close> is what \<open>self.docker_client.containers.get\<close> answers.
  The \<open>start\<close> of an exited container is taken to return. No port is drawn here: the
  function has no port query among its parameters.
\<close>

definition attach_to_container ::
  "config \<Rightarrow> (exn + container) \<Rightarrow> runtime \<Rightarrow> (exn + unit) \<times> runtime \<times> event list" where
  "attach_to_container cfg got self =
     (case got of
        Inl e \<Rightarrow> (Inl e, self, [ContainersGet (container_name self)])
      | Inr c \<Rightarrow>
          (let self1 = self\<lparr>container := Some c\<rparr>;
               tr = [ContainersGet (container_name self)] @
                    (if status c = ''exited'' then [ContainerStart] else [])
           in case read_env (Env c) self1 of
                (Inl e, self2) \<Rightarrow> (Inl e, self2, tr)
              | (Inr u, self2) \<Rightarrow>
                  (case read_exposed (case ExposedPorts c of None \<Rightarrow> [] | Some ks \<Rightarrow> ks)
                          (self2\<lparr>app_ports := []\<rparr>) of
                     (Inl e, self3) \<Rightarrow> (Inl e, self3, tr)
                   | (Inr u, self3) \<Rightarrow>
                       (Inr (),
                        self3\<lparr>api_url := local_runtime_url cfg @ '':'' @ str_int (container_port self3)\<rparr>,
                        tr))))"

section \<open>\<open>_init_container\<close>\<close>

text \<open>
  \<open>docker_client.version()\<close> answers with the \<open>Components\<close> list, if the entry is there,
  each component with its \<open>Name\<close>, if it has one.
\<close>

type_synonym version_info = "string option list option"

text \<open>
  What the outside answers during one pass through \<open>_init_container\<close>: the engine's
  version query, the port queries of the four allocations (numbered 0 to 3),
  \<open>get_action_execution_server_startup_command\<close> for the server port, and
  \<open>containers.run\<close> for the specification it is given.
\<close>

record init_env =
  docker_version :: "exn + version_info"
  find_available_tcp_port :: "nat \<Rightarrow> int \<Rightarrow> int \<Rightarrow> nat \<Rightarrow> int"
  containers_list :: "nat \<Rightarrow> nat \<Rightarrow> container_ports list"
  startup_command :: "int \<Rightarrow> string list"
  containers_run :: "creation_spec \<Rightarrow> exn + container"

definition is_docker_desktop :: "version_info \<Rightarrow> bool" where
  "is_docker_desktop version_info =
     list_ex (\<lambda>component_name.
                str_in ''docker-desktop''
                  (lower (case component_name of None \<Rightarrow> [] | Some n \<Rightarrow> n)))
             (case version_info of None \<Rightarrow> [] | Some components \<Rightarrow> components)"

text \<open>
  The network mode resolver: the value of \<open>network_mode\<close> and of the local variable
  \<open>extra_hosts\<close> after it, \<open>None\<close> while \<open>extra_hosts\<close> is not bound. The version query is
  made only when host networking is off.
\<close>

definition resolve_network ::
  "config \<Rightarrow> (exn + version_info) \<Rightarrow> string option \<times> (string \<times> string) list option" where
  "resolve_network cfg version =
     (if use_host_network cfg then (Some ''host'', None)
      else (case version of
              Inr version_info \<Rightarrow>
                if is_docker_desktop version_info then (Some ''bridge'', None)
                else (Some ''bridge'', Some [(''host.docker.internal'', ''host-gateway'')])
            | Inl e \<Rightarrow> (Some ''bridge'', None)))"

text \<open>The four allocations, in the order of the assignments.\<close>

definition allocate_ports :: "init_env \<Rightarrow> runtime \<Rightarrow> runtime" where
  "allocate_ports env self =
     (let hp = find_available_port (find_available_tcp_port env 0) (containers_list env 0)
                 EXECUTION_SERVER_PORT_RANGE 5;
          vp = find_available_port (find_available_tcp_port env 1) (containers_list env 1)
                 VSCODE_PORT_RANGE 5;
          a1 = find_available_port (find_available_tcp_port env 2) (containers_list env 2)
                 APP_PORT_RANGE_1 5;
          a2 = find_available_port (find_available_tcp_port env 3) (containers_list env 3)
                 APP_PORT_RANGE_2 5
      in self\<lparr>host_port := hp, container_port := hp, vscode_port := vp, app_ports := [a1, a2]\<rparr>)"

text \<open>
  The host name of the reachability URL. \<open>split\<close> never answers the empty list, so
  \<open>[-1]\<close> and \<open>[0]\<close> are \<open>last\<close> and \<open>hd\<close>, and the fallback of the \<open>except\<close> clause is not
  reached.
\<close>

definition hostname_of :: "config \<Rightarrow> string" where
  "hostname_of cfg =
     (if os_name_nt cfg then ''host.docker.internal''
      else hd (split (last (split (local_runtime_url cfg) ''://'')) '':''))"

definition host_binding :: "string \<Rightarrow> int \<Rightarrow> port_binding list" where
  "host_binding bind_address port = [\<lparr>HostIp = bind_address, HostPort = str_int port\<rparr>]"

definition port_mapping_of :: "config \<Rightarrow> runtime \<Rightarrow> (string \<times> port_binding list) list option" where
  "port_mapping_of cfg self =
     (if \<not> use_host_network cfg then
        (let bind_address = or_default (runtime_binding_address cfg) ''127.0.0.1'';
             m0 = [(str_int (container_port self) @ ''/tcp'', host_binding bind_address (host_port self))];
             m1 = (if vscode_enabled self
                   then AList.update (str_int (vscode_port self) @ ''/tcp'')
                          (host_binding bind_address (vscode_port self)) m0
                   else m0)
         in Some (fold (\<lambda>port m. AList.update (str_int port @ ''/tcp'')
                                    (host_binding bind_address port) m)
                    (app_ports self) m1))
      else None)"

definition computed_environment :: "config \<Rightarrow> runtime \<Rightarrow> (string \<times> string) list" where
  "computed_environment cfg self =
     (let environment =
            [(''port'', str_int (container_port self)),
             (''PYTHONUNBUFFERED'', ''1''),
             (''VSCODE_PORT'', str_int (vscode_port self)),
             (''PIP_BREAK_SYSTEM_PACKAGES'', ''1''),
             (''HOST_HOSTNAME'', ''host.docker.internal''),
             (''DOCKER_DEFAULT_PLATFORM'', or_default (platform cfg) ''linux/amd64''),
             (''DOCKER_BUILDKIT'', ''1''),
             (''DOCKER_DNS'', ''8.8.8.8'')]
      in if config_debug cfg \<or> DEBUG cfg
         then AList.update ''DOCKER_BUILDKIT_PROGRESS'' ''plain''
                (AList.update ''DEBUG'' ''true'' environment)
         else environment)"

text \<open>The environment handed to the engine: the computed entries, then \<open>update\<close>.\<close>

definition environment_of :: "config \<Rightarrow> runtime \<Rightarrow> (string \<times> string) list" where
  "environment_of cfg self = dict_update (computed_environment cfg self) (runtime_startup_env_vars cfg)"

definition volumes_of :: "config \<Rightarrow> (string \<times> string \<times> string) option" where
  "volumes_of cfg =
     (case (workspace_mount_path cfg, workspace_mount_path_in_sandbox cfg) of
        (Some path, Some bind) \<Rightarrow> Some (path, bind, ''rw'')
      | _ \<Rightarrow> None)"

text \<open>
  One pass through the body of \<open>_init_container\<close>, up to its return, its raise, or the
  recursive call of the name-conflict handler. An optional value stands for the local
  variable \<open>extra_hosts\<close>: reading it while it is unbound, when the arguments of
  \<open>containers.run\<close> are evaluated inside the \<open>try\<close>, raises \<open>UnboundLocalError\<close> (its
  argument here is the name of the variable), which the general handler catches. The
  lookup \<open>attrs['NetworkSettings']['IPAddress']\<close> raises \<open>KeyError\<close> when an entry is missing.
  The handler around the port allocation only logs and raises again.
\<close>

datatype pass_end = Returned "exn + unit" | NameConflict

definition init_pass :: "config \<Rightarrow> init_env \<Rightarrow> runtime \<Rightarrow> pass_end \<times> runtime \<times> event list" where
  "init_pass cfg env self =
     (let tr0 = [Status ''STATUS$PREPARING_CONTAINER''] @
                (if use_host_network cfg then [] else [EngineVersion]);
          (network_mode, extra_hosts) = resolve_network cfg (docker_version env);
          self1 = allocate_ports env self;
          self2 = self1\<lparr>api_url := ''http://'' @ hostname_of cfg @ '':'' @ str_int (container_port self1)\<rparr>;
          port_mapping = port_mapping_of cfg self2;
          environment = environment_of cfg self2;
          volumes = volumes_of cfg;
          command = startup_command env (container_port self2)
      in case extra_hosts of
           None \<Rightarrow>
             (Returned (Inl (UnboundLocalError ''extra_hosts'')), self2, tr0 @ close cfg self2)
         | Some hosts \<Rightarrow>
             (let spec = \<lparr>image = runtime_container_image self2, command = command,
                          network_mode = network_mode, ports = port_mapping,
                          name = container_name self2, environment = environment,
                          volumes = volumes, extra_hosts = hosts,
                          device_requests = enable_gpu cfg\<rparr>;
                  tr1 = tr0 @ [ContainersRun spec]
              in case containers_run env spec of
                   Inr c \<Rightarrow>
                     (let self3 = self2\<lparr>container := Some c\<rparr> in
                      if network_mode \<noteq> Some ''host'' \<and>
                         (case NetworkSettings c of None \<Rightarrow> True | Some ns \<Rightarrow> IPAddress ns = None)
                      then (Returned (Inl (KeyError ''NetworkSettings.IPAddress'')), self3,
                            tr1 @ close cfg self3)
                      else (Returned (Inr ()), self3, tr1 @ [Status ''STATUS$CONTAINER_STARTED'']))
                 | Inl e \<Rightarrow>
                     if is_APIError e then
                       (if str_in ''409'' (str_exn e)
                        then (NameConflict, self2, tr1 @ [StopAllContainers (container_name self2)])
                        else (Returned (Inl e), self2, tr1))
                     else (Returned (Inl e), self2, tr1 @ close cfg self2)))"

text \<open>
  \<open>_init_container\<close>. The list holds what the outside answers in each pass, the first
  pass first; the handler of a name conflict calls the function again, which uses the
  next answers. \<open>None\<close> means that the answers ran out before the function returned.
\<close>

fun init_container ::
  "config \<Rightarrow> init_env list \<Rightarrow> runtime \<Rightarrow> ((exn + unit) \<times> runtime \<times> event list) option" where
  "init_container cfg [] self = None"
| "init_container cfg (env # envs) self =
     (case init_pass cfg env self of
        (Returned r, self', tr) \<Rightarrow> Some (r, self', tr)
      | (NameConflict, self', tr) \<Rightarrow>
          (case init_container cfg envs self' of
             None \<Rightarrow> None
           | Some (r, self'', tr') \<Rightarrow> Some (r, self'', tr @ tr')))"

section \<open>\<open>_wait_until_alive\<close>\<close>

text \<open>
  The retry predicate. \<open>isinstance\<close> holds for the six classes of the tuple and their
  subclasses; for a \<open>RetryError\<close> the exception of its last attempt decides.
\<close>

fun is_retryable_wait_until_alive_error :: "exn \<Rightarrow> bool" where
  "is_retryable_wait_until_alive_error (RetryError None) = False"
| "is_retryable_wait_until_alive_error (RetryError (Some cause)) =
     is_retryable_wait_until_alive_error cause"
| "is_retryable_wait_until_alive_error ConnectionError = True"
| "is_retryable_wait_until_alive_error NetworkError = True"
| "is_retryable_wait_until_alive_error RemoteProtocolError = True"
| "is_retryable_wait_until_alive_error HTTPStatusError = True"
| "is_retryable_wait_until_alive_error ConnectTimeout = True"
| "is_retryable_wait_until_alive_error (NotFound m) = True"
| "is_retryable_wait_until_alive_error e = False"

text \<open>
  What the outside answers during one attempt of \<open>_wait_until_alive\<close>: the lookup of the
  container, \<open>container.logs(tail=50).decode('utf-8')\<close>, the \<open>exec_run\<close> of the ping
  (\<open>None\<close>: it returned), \<open>check_if_alive\<close> (\<open>None\<close>: it returned), and whether, once the
  attempt is over, the stop condition of the retry decorator holds (180 seconds have
  passed since the first attempt, or the process is shutting down).
\<close>

record probe_env =
  container_get :: "exn + container"
  container_logs :: "exn + string"
  exec_run :: "exn option"
  check_if_alive :: "exn option"
  must_stop :: bool

definition truthy :: "string option \<Rightarrow> bool" where
  "truthy x = (case x of None \<Rightarrow> False | Some v \<Rightarrow> v \<noteq> [])"

text \<open>
  The two \<open>except\<close> clauses around the body: a \<open>docker.errors.NotFound\<close> becomes an
  \<open>AgentRuntimeNotFoundError\<close>, any other exception is raised again as it is.
\<close>

definition wait_handlers :: "runtime \<Rightarrow> exn \<Rightarrow> exn" where
  "wait_handlers self e =
     (case e of
        NotFound m \<Rightarrow> AgentRuntimeNotFoundError (''Container '' @ container_name self @ '' not found.'')
      | _ \<Rightarrow> e)"

text \<open>The body of \<open>_wait_until_alive\<close>: one attempt.\<close>

definition wait_attempt :: "probe_env \<Rightarrow> runtime \<Rightarrow> (exn + unit) \<times> runtime \<times> event list" where
  "wait_attempt env self =
     (case container_get env of
        Inl e \<Rightarrow> (Inl (wait_handlers self e), self, [ContainersGet (container_name self)])
      | Inr c \<Rightarrow>
          if status c = ''exited'' then
            (case container_logs env of
               Inl e \<Rightarrow>
                 (Inl (wait_handlers self e), self, [ContainersGet (container_name self), ContainerLogs])
             | Inr logs \<Rightarrow>
                 (Inl (wait_handlers self
                        (AgentRuntimeDisconnectedError
                           (''Container '' @ container_name self @ '' has exited. Last logs:'' @
                            [CHR 0x0A] @ logs))),
                  self, [ContainersGet (container_name self), ContainerLogs]))
          else
            (let ip = (case NetworkSettings c of None \<Rightarrow> None | Some ns \<Rightarrow> IPAddress ns);
                 gateway = (case NetworkSettings c of None \<Rightarrow> None | Some ns \<Rightarrow> Gateway ns);
                 self1 = (if \<not> truthy ip \<and> exec_run env \<noteq> None \<and> truthy gateway
                          then self\<lparr>api_url := ''http://'' @ or_default gateway [] @ '':'' @
                                                str_int (container_port self)\<rparr>
                          else self);
                 tr = [ContainersGet (container_name self)] @
                      (if \<not> truthy ip then [ContainerExecRun] else []) @ [CheckIfAlive]
             in case check_if_alive env of
                  None \<Rightarrow> (Inr (), self1, tr)
                | Some e \<Rightarrow> (Inl (wait_handlers self e), self1, tr)))"

text \<open>
  \<open>_wait_until_alive\<close> under its retry decorator, with the answers of the attempts in
  order. An attempt that returns ends the loop. An exception the predicate rejects is
  raised at once; one it accepts is raised when the stop condition holds
  (\<open>reraise=True\<close>), and otherwise the next attempt follows. The waits between the
  attempts are left out. \<open>None\<close> means that the answers ran out.
\<close>

fun wait_until_alive ::
  "probe_env list \<Rightarrow> runtime \<Rightarrow> ((exn + unit) \<times> runtime \<times> event list) option" where
  "wait_until_alive [] self = None"
| "wait_until_alive (env # envs) self =
     (case wait_attempt env self of
        (Inr u, self', tr) \<Rightarrow> Some (Inr u, self', tr)
      | (Inl e, self', tr) \<Rightarrow>
          if \<not> is_retryable_wait_until_alive_error e then Some (Inl e, self', tr)
          else if must_stop env then Some (Inl e, self', tr)
          else (case wait_until_alive envs self' of
                  None \<Rightarrow> None
                | Some (r, self'', tr') \<Rightarrow> Some (r, self'', tr @ tr')))"

section \<open>\<open>connect\<close>\<close>

text \<open>
  What the outside answers during \<open>connect\<close>: the container lookup of each call of
  \<open>_attach_to_container\<close> (numbered from 0), \<open>build_runtime_image\<close>, the passes of
  \<open>_init_container\<close>, the attempts of \<open>_wait_until_alive\<close>, and \<open>setup_initial_env\<close>
  (\<open>None\<close>: it returned).
\<close>

record connect_env =
  attach_get :: "nat \<Rightarrow> exn + container"
  build_runtime_image :: "exn + string"
  init_envs :: "init_env list"
  probe_envs :: "probe_env list"
  setup_initial_env :: "exn option"

text \<open>\<open>except (docker.errors.NotFound, httpx.ConnectTimeout)\<close>\<close>

fun is_NotFound_or_ConnectTimeout :: "exn \<Rightarrow> bool" where
  "is_NotFound_or_ConnectTimeout (NotFound m) = True"
| "is_NotFound_or_ConnectTimeout ConnectTimeout = True"
| "is_NotFound_or_ConnectTimeout e = False"

text \<open>The branch of the handler that builds the image, if needed, and creates the container.\<close>

definition provision ::
  "config \<Rightarrow> connect_env \<Rightarrow> runtime \<Rightarrow> ((exn + unit) \<times> runtime \<times> event list) option" where
  "provision cfg env self =
     (case (if runtime_container_image self = None then
              (if base_container_image self = None
               then (Inl (ValueError ''Neither runtime container image nor base container image is set''),
                     self, [])
               else (case build_runtime_image env of
                       Inl e \<Rightarrow> (Inl e, self, [Status ''STATUS$STARTING_CONTAINER'', BuildRuntimeImage])
                     | Inr img \<Rightarrow>
                         (Inr (), self\<lparr>runtime_container_image := Some img\<rparr>,
                          [Status ''STATUS$STARTING_CONTAINER'', BuildRuntimeImage])))
            else (Inr (), self, [])) of
        (Inl e, self1, tr) \<Rightarrow> Some (Inl e, self1, tr)
      | (Inr u, self1, tr) \<Rightarrow>
          (case init_container cfg (init_envs env) self1 of
             None \<Rightarrow> None
           | Some (r, self2, tr') \<Rightarrow> Some (r, self2, tr @ tr')))"

text \<open>
  The \<open>while retry_count < max_retries\<close> loop of \<open>connect\<close>, with \<open>max_retries = 3\<close>. The
  call of \<open>_attach_to_container\<close> made at \<open>retry_count\<close> is call number \<open>retry_count\<close>.
\<close>

function attach_or_create ::
  "config \<Rightarrow> connect_env \<Rightarrow> nat \<Rightarrow> runtime \<Rightarrow> ((exn + unit) \<times> runtime \<times> event list) option" where
  "attach_or_create cfg env retry_count self =
     (if retry_count < 3 then
        (case attach_to_container cfg (attach_get env retry_count) self of
           (Inr u, self1, tr) \<Rightarrow> Some (Inr (), self1, tr)
         | (Inl e, self1, tr) \<Rightarrow>
             if is_NotFound_or_ConnectTimeout e then
               (if retry_count + 1 \<ge> 3 \<or> attach_to_existing self1 then
                  (if attach_to_existing self1
                   then Some (Inl (AgentRuntimeDisconnectedError []), self1, tr)
                   else (case provision cfg env self1 of
                           None \<Rightarrow> None
                         | Some (Inl e', self2, tr') \<Rightarrow> Some (Inl e', self2, tr @ tr')
                         | Some (Inr u, self2, tr') \<Rightarrow>
                             (case attach_or_create cfg env (retry_count + 1) self2 of
                                None \<Rightarrow> None
                              | Some (r, self3, tr'') \<Rightarrow> Some (r, self3, tr @ tr' @ tr''))))
                else (case attach_or_create cfg env (retry_count + 1) self1 of
                        None \<Rightarrow> None
                      | Some (r, self2, tr') \<Rightarrow>
                          Some (r, self2, tr @ [Sleep (2 ^ (retry_count + 1))] @ tr')))
             else Some (Inl e, self1, tr))
      else Some (Inr (), self, []))"
  by pat_completeness auto
termination
  by (relation "measure (\<lambda>(cfg, env, retry_count, self). 3 - retry_count)") auto

declare attach_or_create.simps [simp del]

definition connect ::
  "config \<Rightarrow> connect_env \<Rightarrow> runtime \<Rightarrow> ((exn + unit) \<times> runtime \<times> event list) option" where
  "connect cfg env self =
     (case attach_or_create cfg env 0 self of
        None \<Rightarrow> None
      | Some (Inl e, self1, tr1) \<Rightarrow> Some (Inl e, self1, [Status ''STATUS$STARTING_RUNTIME''] @ tr1)
      | Some (Inr u, self1, tr1) \<Rightarrow>
          (let self2 = self1\<lparr>log_streamer := DEBUG_RUNTIME cfg\<rparr>;
               tr2 = [Status ''STATUS$STARTING_RUNTIME''] @ tr1 @
                     (if \<not> attach_to_existing self2 then [Status ''STATUS$WAITING_FOR_CLIENT''] else [])
           in case wait_until_alive (probe_envs env) self2 of
                None \<Rightarrow> None
              | Some (Inl e, self3, tr3) \<Rightarrow> Some (Inl e, self3, tr2 @ tr3)
              | Some (Inr u, self3, tr3) \<Rightarrow>
                  if \<not> attach_to_existing self3 then
                    (case setup_initial_env env of
                       Some e \<Rightarrow> Some (Inl e, self3, tr2 @ tr3 @ [SetupInitialEnv])
                     | None \<Rightarrow>
                         Some (Inr (), self3\<lparr>runtime_initialized := True\<rparr>,
                               tr2 @ tr3 @ [SetupInitialEnv, Status '' '']))
                  else Some (Inr (), self3\<lparr>runtime_initialized := True\<rparr>, tr2 @ tr3)))"

section \<open>The docker client and \<open>delete\<close>\<close>

text \<open>
  The state of the process that the module shares between its runtimes: the one slot
  of the \<open>lru_cache\<close> on \<open>_init_docker_client\<close>, holding the client it returned, if it
  has returned one, and the clients that have been closed. Clients are numbered in the
  order \<open>docker.from_env()\<close> makes them.
\<close>

record process =
  client_cache :: "nat option"
  next_client :: nat
  closed_clients :: "nat set"

text \<open>
  \<open>_init_docker_client\<close>; \<open>from_env\<close> is what \<open>docker.from_env()\<close> does if it is called
  (\<open>None\<close>: it returns a new client). A call that raises leaves the cache empty.
\<close>

definition init_docker_client :: "exn option \<Rightarrow> process \<Rightarrow> (exn + nat) \<times> process" where
  "init_docker_client from_env p =
     (case client_cache p of
        Some c \<Rightarrow> (Inr c, p)
      | None \<Rightarrow>
          (case from_env of
             Some e \<Rightarrow> (Inl e, p)
           | None \<Rightarrow>
               (Inr (next_client p),
                p\<lparr>client_cache := Some (next_client p), next_client := Suc (next_client p)\<rparr>)))"

text \<open>
  What the outside answers during \<open>delete\<close>: \<open>docker.from_env()\<close>, the lookup of the
  container and its removal (\<open>None\<close>: the call returned).
\<close>

record delete_env =
  from_env :: "exn option"
  get_container :: "exn option"
  remove_container :: "exn option"

fun is_NotFound :: "exn \<Rightarrow> bool" where
  "is_NotFound (NotFound m) = True"
| "is_NotFound e = False"

definition delete :: "delete_env \<Rightarrow> string \<Rightarrow> process \<Rightarrow> (exn + unit) \<times> process \<times> event list" where
  "delete env conversation_id p =
     (case init_docker_client (from_env env) p of
        (Inl e, p1) \<Rightarrow> (Inl e, p1, [])
      | (Inr docker_client, p1) \<Rightarrow>
          (let container_name = CONTAINER_NAME_PREFIX @ conversation_id;
               raised = (case get_container env of Some e \<Rightarrow> Some e | None \<Rightarrow> remove_container env);
               tr = [ContainersGet container_name] @
                    (if get_container env = None then [ContainerRemove] else []);
               outcome = (case raised of
                            None \<Rightarrow> Inr ()
                          | Some e \<Rightarrow> if is_APIError e then Inr ()
                                      else if is_NotFound e then Inr ()
                                      else Inl e)
           in (outcome, p1\<lparr>closed_clients := insert docker_client (closed_clients p1)\<rparr>,
               tr @ [ClientClose docker_client])))"

section \<open>The engine's report of a created container\<close>

text \<open>
  The Port Assignment of a runtime object: the control port, as host port and as
  container port, the editor port and the application ports in their order.
\<close>

definition port_assignment :: "runtime \<Rightarrow> int \<times> int \<times> int \<times> int list" where
  "port_assignment self = (host_port self, container_port self, vscode_port self, app_ports self)"

text \<open>
  The environment dict goes to the engine as \<open>KEY=VALUE\<close> strings, in the order of the
  dict. A port marker is an entry that \<open>_attach_to_container\<close> reads a port from.
\<close>

definition env_entries :: "(string \<times> string) list \<Rightarrow> string list" where
  "env_entries env_dict = map (\<lambda>kv. fst kv @ ''='' @ snd kv) env_dict"

definition is_port_marker :: "string \<Rightarrow> bool" where
  "is_port_marker e = (startswith e ''port='' \<or> startswith e ''VSCODE_PORT='')"

text \<open>
  The engine is not part of the module. A container it reports declares a creation
  specification when its \<open>Env\<close> starts with the entries of the specification's
  environment, in order, followed only by entries of the image that are no port
  markers, and its \<open>ExposedPorts\<close> has the keys of the specification's port mapping, in
  order, and no others.
\<close>

definition declares :: "container \<Rightarrow> creation_spec \<Rightarrow> bool" where
  "declares c spec =
     (take (length (environment spec)) (Env c) = env_entries (environment spec) \<and>
      list_all (\<lambda>e. \<not> is_port_marker e) (drop (length (environment spec)) (Env c)) \<and>
      ExposedPorts c = map_option (map fst) (ports spec))"

text \<open>
  Creating a container with \<open>_init_container\<close> and then attaching a runtime object
  \<open>fresh\<close> to the created container: the Port Assignment at creation and the one
  attaching reconstructs, if both calls return.
\<close>

definition created_then_attached ::
  "config \<Rightarrow> init_env list \<Rightarrow> runtime \<Rightarrow> runtime \<Rightarrow>
   ((int \<times> int \<times> int \<times> int list) \<times> (int \<times> int \<times> int \<times> int list)) option" where
  "created_then_attached cfg envs self fresh =
     (case init_container cfg envs self of
        Some (Inr u, created, tr) \<Rightarrow>
          (case container created of
             Some c \<Rightarrow>
               (case attach_to_container cfg (Inr c) fresh of
                  (Inr u', attached, tr') \<Rightarrow> Some (port_assignment created, port_assignment attached)
                | (Inl e, attached, tr') \<Rightarrow> None)
           | None \<Rightarrow> None)
      | _ \<Rightarrow> None)"

section \<open>Reading a run, and sample inputs\<close>

text \<open>The outcome and the events of a run that returned.\<close>

definition result_of :: "('r \<times> 's \<times> event list) option \<Rightarrow> 'r option" where
  "result_of run = (case run of None \<Rightarrow> None | Some (r, s, tr) \<Rightarrow> Some r)"

definition trace_of :: "('r \<times> 's \<times> event list) option \<Rightarrow> event list" where
  "trace_of run = (case run of None \<Rightarrow> [] | Some (r, s, tr) \<Rightarrow> tr)"

fun is_ContainersRun :: "event \<Rightarrow> bool" where
  "is_ContainersRun (ContainersRun spec) = True"
| "is_ContainersRun ev = False"

fun is_StopAllContainers :: "event \<Rightarrow> bool" where
  "is_StopAllContainers (StopAllContainers n) = True"
| "is_StopAllContainers ev = False"

fun is_ContainersGet :: "event \<Rightarrow> bool" where
  "is_ContainersGet (ContainersGet n) = True"
| "is_ContainersGet ev = False"

text \<open>
  A configuration with bridge networking and no caller-supplied environment, a runtime
  object as \<open>__init__\<close> leaves it for the session \<open>abc\<close>, and a container as the engine
  reports one that this module created.
\<close>

definition sample_config :: config where
  "sample_config =
     \<lparr>use_host_network = False, runtime_binding_address = None, platform = None,
      config_debug = False, DEBUG = False, DEBUG_RUNTIME = False, os_name_nt = False,
      runtime_startup_env_vars = [], workspace_mount_path = None,
      workspace_mount_path_in_sandbox = None, enable_gpu = False,
      local_runtime_url = ''http://127.0.0.1'', keep_runtime_alive = False,
      rm_all_containers = False\<rparr>"

definition sample_runtime :: runtime where
  "sample_runtime =
     \<lparr>container_name = ''openhands-runtime-abc'', attach_to_existing = False,
      vscode_enabled = True, host_port = - 1, container_port = - 1, vscode_port = - 1,
      app_ports = [], api_url = ''http://127.0.0.1:-1'', container = None,
      base_container_image = None, runtime_container_image = Some ''runtime'',
      log_streamer = False, runtime_initialized = False\<rparr>"

definition sample_container :: container where
  "sample_container =
     \<lparr>status = ''running'',
      Env = [''port=30001'', ''PYTHONUNBUFFERED=1'', ''VSCODE_PORT=40001''],
      ExposedPorts = Some [''30001/tcp'', ''40001/tcp'', ''50001/tcp'', ''55001/tcp''],
      NetworkSettings = Some \<lparr>IPAddress = Some ''172.17.0.2'', Gateway = Some ''172.17.0.1''\<rparr>\<rparr>"

text \<open>
  Answers for one pass of \<open>_init_container\<close>: the version query and \<open>containers.run\<close>
  as given, every port query answering the second port of the range, and no container
  running.
\<close>

definition sample_init_env ::
  "(exn + version_info) \<Rightarrow> (creation_spec \<Rightarrow> exn + container) \<Rightarrow> init_env" where
  "sample_init_env version run =
     \<lparr>docker_version = version,
      find_available_tcp_port = (\<lambda>i lo hi k. min hi (lo + 1)),
      containers_list = (\<lambda>i k. []),
      startup_command = (\<lambda>port. [''action_execution_server'', str_int port]),
      containers_run = run\<rparr>"

definition engine_version :: "exn + version_info" where
  "engine_version = Inr (Some [Some ''Engine'', Some ''containerd''])"

definition run_conflict :: "creation_spec \<Rightarrow> exn + container" where
  "run_conflict spec = Inl (APIError ''409 Client Error: Conflict'')"

definition run_ok :: "creation_spec \<Rightarrow> exn + container" where
  "run_ok spec = Inr sample_container"

text \<open>
  An engine that creates the container and reports it as declared, with one entry of
  the image in its environment.
\<close>

definition run_declared :: "creation_spec \<Rightarrow> exn + container" where
  "run_declared spec =
     Inr \<lparr>status = ''running'',
          Env = env_entries (environment spec) @ [''PATH=/usr/local/bin:/usr/bin''],
          ExposedPorts = map_option (map fst) (ports spec),
          NetworkSettings = Some \<lparr>IPAddress = Some ''172.17.0.2'', Gateway = Some ''172.17.0.1''\<rparr>\<rparr>"

text \<open>Answers for one attempt of \<open>_wait_until_alive\<close> with the server up.\<close>

definition sample_probe_env :: probe_env where
  "sample_probe_env =
     \<lparr>container_get = Inr sample_container, container_logs = Inr [], exec_run = None,
      check_if_alive = None, must_stop = False\<rparr>"

text \<open>
  Answers for a \<open>connect\<close> that finds the container of the session already there,
  running, with the server up.
\<close>

definition sample_connect_env :: connect_env where
  "sample_connect_env =
     \<lparr>attach_get = (\<lambda>k. Inr sample_container), build_runtime_image = Inr ''image'',
      init_envs = [], probe_envs = [sample_probe_env], setup_initial_env = None\<rparr>"

section \<open>Properties of the port allocator\<close>

lemma sublist_join: "x \<in> set xs \<Longrightarrow> sublist x (join sep xs)"
proof (induction sep xs rule: join.induct)
  case (3 sep x' y ys)
  show ?case
  proof (cases "x = x'")
    case True
    then show ?thesis by simp
  next
    case False
    with 3 have "sublist x (join sep (y # ys))" by simp
    moreover have "sublist (join sep (y # ys)) ((x' @ sep) @ join sep (y # ys))"
      by (rule sublist_append_leftI)
    ultimately have "sublist x ((x' @ sep) @ join sep (y # ys))"
      by (rule sublist_order.order.trans)
    then show ?thesis by simp
  qed
qed simp_all

lemma sublist_mid: "sublist x y \<Longrightarrow> sublist x (p @ y @ q)"
  by (erule sublist_order.order.trans) simp

lemma sublist_str_item_in_ports:
  assumes "kv \<in> set cp" and "sublist x (str_item kv)"
  shows "sublist x (str_ports cp)"
proof -
  have "sublist (str_item kv) (join '', '' (map str_item cp))"
    using assms(1) by (intro sublist_join) simp
  with assms(2) have "sublist x (join '', '' (map str_item cp))"
    by (rule sublist_order.order.trans)
  then show ?thesis
    unfolding str_ports_def by (rule sublist_mid)
qed

lemma sublist_key_in_item: "sublist (k @ s) (str_item (k @ s @ t, v))"
proof -
  have "str_item (k @ s @ t, v) = [CHR 0x27] @ (k @ s) @ (t @ [CHR 0x27] @ '': '' @ str_bindings v)"
    by (simp add: str_item_def repr_str_def)
  then show ?thesis
    by (simp only: sublist_appendI)
qed

lemma sublist_host_port_in_binding: "sublist (HostPort b) (str_binding b)"
proof -
  have "str_binding b =
      (''{'' @ repr_str ''HostIp'' @ '': '' @ repr_str (HostIp b) @ '', '' @
        repr_str ''HostPort'' @ '': '' @ [CHR 0x27]) @ HostPort b @ ([CHR 0x27] @ ''}'')"
    by (simp add: str_binding_def repr_str_def)
  then show ?thesis
    by (simp only: sublist_appendI)
qed

lemma sublist_host_port_in_item:
  assumes "b \<in> set bs"
  shows "sublist (HostPort b) (str_item (k, Some bs))"
proof -
  have "sublist (str_binding b) (join '', '' (map str_binding bs))"
    using assms by (intro sublist_join) simp
  with sublist_host_port_in_binding have "sublist (HostPort b) (join '', '' (map str_binding bs))"
    by (rule sublist_order.order.trans)
  then have "sublist (HostPort b) ((repr_str k @ '': '' @ ''['') @ join '', '' (map str_binding bs) @ '']'')"
    by (rule sublist_mid)
  then show ?thesis
    by (simp add: str_item_def str_bindings_def)
qed

lemma publishes_str_in:
  assumes "publishes cp p"
  shows "str_in (str_int p) (str_ports cp)"
proof -
  from assms obtain kv where kv: "kv \<in> set cp"
    and c: "fst kv = str_int p @ ''/tcp'' \<or>
      (case snd kv of None \<Rightarrow> False | Some bs \<Rightarrow> list_ex (\<lambda>b. HostPort b = str_int p) bs)"
    by (auto simp: publishes_def list_ex_iff)
  from c have "sublist (str_int p) (str_item kv)"
  proof
    assume "fst kv = str_int p @ ''/tcp''"
    then have "kv = (str_int p @ ''/tcp'' @ [], snd kv)"
      by (cases kv) simp
    then have "str_item kv = str_item (str_int p @ ''/tcp'' @ [], snd kv)" by simp
    moreover have "sublist (str_int p) (str_int p @ ''/tcp'')" by simp
    ultimately show ?thesis
      using sublist_key_in_item [of "str_int p" "''/tcp''" "[]" "snd kv"]
      by (metis sublist_order.order.trans)
  next
    assume h: "case snd kv of None \<Rightarrow> False | Some bs \<Rightarrow> list_ex (\<lambda>b. HostPort b = str_int p) bs"
    then obtain bs b where "snd kv = Some bs" "b \<in> set bs" "HostPort b = str_int p"
      by (auto simp: list_ex_iff split: option.splits)
    then show ?thesis
      using sublist_host_port_in_item [of b bs "fst kv"] by (cases kv) simp
  qed
  with kv show ?thesis
    unfolding str_in_def by (rule sublist_str_item_in_ports)
qed

lemma in_use_if_published:
  "c \<in> set containers \<Longrightarrow> publishes c p \<Longrightarrow> is_port_in_use_docker containers p"
  by (induction containers) (auto dest: publishes_str_in)

lemma find_loop_outcome:
  "(\<exists>i. k \<le> i \<and> i < k + n \<and> find_loop tcp cl k n port = tcp i \<and>
        (\<forall>j. k \<le> j \<and> j < i \<longrightarrow> is_port_in_use_docker (cl j) (tcp j)) \<and>
        \<not> is_port_in_use_docker (cl i) (tcp i))
   \<or> ((\<forall>j. k \<le> j \<and> j < k + n \<longrightarrow> is_port_in_use_docker (cl j) (tcp j)) \<and>
       find_loop tcp cl k n port = (if n = 0 then port else tcp (k + n - 1)))"
proof (induction n arbitrary: k port)
  case 0
  have "\<forall>j. k \<le> j \<and> j < k + 0 \<longrightarrow> is_port_in_use_docker (cl j) (tcp j)"
    by auto
  then show ?case by simp
next
  case (Suc n)
  show ?case
  proof (cases "is_port_in_use_docker (cl k) (tcp k)")
    case False
    then have "k \<le> k \<and> k < k + Suc n \<and> find_loop tcp cl k (Suc n) port = tcp k \<and>
        (\<forall>j. k \<le> j \<and> j < k \<longrightarrow> is_port_in_use_docker (cl j) (tcp j)) \<and>
        \<not> is_port_in_use_docker (cl k) (tcp k)"
      by auto
    then show ?thesis by blast
  next
    case True
    have step: "find_loop tcp cl k (Suc n) port = find_loop tcp cl (Suc k) n (tcp k)"
      using True by simp
    have below: "\<And>j. k \<le> j \<Longrightarrow> j < Suc k \<Longrightarrow> is_port_in_use_docker (cl j) (tcp j)"
      using True by (simp add: le_less_Suc_eq)
    from Suc.IH [of "Suc k" "tcp k"] show ?thesis
    proof
      assume "\<exists>i. Suc k \<le> i \<and> i < Suc k + n \<and> find_loop tcp cl (Suc k) n (tcp k) = tcp i \<and>
        (\<forall>j. Suc k \<le> j \<and> j < i \<longrightarrow> is_port_in_use_docker (cl j) (tcp j)) \<and>
        \<not> is_port_in_use_docker (cl i) (tcp i)"
      then obtain i where i: "Suc k \<le> i" "i < Suc k + n"
        "find_loop tcp cl (Suc k) n (tcp k) = tcp i"
        "\<forall>j. Suc k \<le> j \<and> j < i \<longrightarrow> is_port_in_use_docker (cl j) (tcp j)"
        "\<not> is_port_in_use_docker (cl i) (tcp i)"
        by blast
      have "\<forall>j. k \<le> j \<and> j < i \<longrightarrow> is_port_in_use_docker (cl j) (tcp j)"
        using i(4) below by (metis not_less_eq_eq not_le)
      with i step have "k \<le> i \<and> i < k + Suc n \<and> find_loop tcp cl k (Suc n) port = tcp i \<and>
        (\<forall>j. k \<le> j \<and> j < i \<longrightarrow> is_port_in_use_docker (cl j) (tcp j)) \<and>
        \<not> is_port_in_use_docker (cl i) (tcp i)"
        by simp
      then show ?thesis by blast
    next
      assume a: "(\<forall>j. Suc k \<le> j \<and> j < Suc k + n \<longrightarrow> is_port_in_use_docker (cl j) (tcp j)) \<and>
        find_loop tcp cl (Suc k) n (tcp k) = (if n = 0 then tcp k else tcp (Suc k + n - 1))"
      have "\<forall>j. k \<le> j \<and> j < k + Suc n \<longrightarrow> is_port_in_use_docker (cl j) (tcp j)"
        using a below by (metis add_Suc add_Suc_right not_less_eq_eq not_le)
      moreover have "(if n = 0 then tcp k else tcp (Suc k + n - 1)) = tcp (k + Suc n - 1)"
        by (cases n) simp_all
      with a step have "find_loop tcp cl k (Suc n) port = tcp (k + Suc n - 1)"
        by (simp only:)
      ultimately show ?thesis by simp
    qed
  qed
qed

lemma find_available_port_outcome:
  "(\<exists>i<nat N. find_available_port tcp cl (lo, hi) N = tcp lo hi i \<and>
        (\<forall>j<i. is_port_in_use_docker (cl j) (tcp lo hi j)) \<and>
        \<not> is_port_in_use_docker (cl i) (tcp lo hi i))
   \<or> ((\<forall>j<nat N. is_port_in_use_docker (cl j) (tcp lo hi j)) \<and>
       find_available_port tcp cl (lo, hi) N = (if 0 < N then tcp lo hi (nat N - 1) else hi))"
proof -
  have "(if nat N = 0 then hi else tcp lo hi (0 + nat N - 1)) =
      (if 0 < N then tcp lo hi (nat N - 1) else hi)"
    by auto
  then show ?thesis
    using find_loop_outcome [of 0 "nat N" "tcp lo hi" cl hi]
    unfolding find_available_port_def fst_conv snd_conv by auto
qed

text \<open>
  C6, as amended. For a range \<open>lo \<le> hi\<close> and candidates drawn within it, the port
  returned lies in the range. Either it is the candidate of some round \<open>i\<close> of the
  budget, every earlier candidate was rejected, and no container listed in round \<open>i\<close>
  publishes it; or every round of the budget rejected its candidate, and the port
  returned is the last candidate drawn, or the upper end of the range when the budget
  is not positive and nothing was drawn.
\<close>

theorem find_available_port_verified_or_exhausted:
  assumes "lo \<le> hi"
    and "\<forall>k. k < nat N \<longrightarrow> lo \<le> tcp lo hi k \<and> tcp lo hi k \<le> hi"
  shows "lo \<le> find_available_port tcp cl (lo, hi) N \<and>
    find_available_port tcp cl (lo, hi) N \<le> hi \<and>
    ((\<exists>i<nat N. find_available_port tcp cl (lo, hi) N = tcp lo hi i \<and>
         (\<forall>j<i. is_port_in_use_docker (cl j) (tcp lo hi j)) \<and>
         \<not> is_port_in_use_docker (cl i) (tcp lo hi i) \<and>
         (\<forall>c\<in>set (cl i). \<not> publishes c (tcp lo hi i)))
     \<or> ((\<forall>j<nat N. is_port_in_use_docker (cl j) (tcp lo hi j)) \<and>
         find_available_port tcp cl (lo, hi) N = (if 0 < N then tcp lo hi (nat N - 1) else hi)))"
proof -
  let ?r = "find_available_port tcp cl (lo, hi) N"
  from find_available_port_outcome [of N tcp cl lo hi]
  show ?thesis
  proof
    assume "\<exists>i<nat N. ?r = tcp lo hi i \<and>
        (\<forall>j<i. is_port_in_use_docker (cl j) (tcp lo hi j)) \<and>
        \<not> is_port_in_use_docker (cl i) (tcp lo hi i)"
    then obtain i where i: "i < nat N" "?r = tcp lo hi i"
      "\<forall>j<i. is_port_in_use_docker (cl j) (tcp lo hi j)"
      "\<not> is_port_in_use_docker (cl i) (tcp lo hi i)"
      by blast
    from i(4) have "\<forall>c\<in>set (cl i). \<not> publishes c (tcp lo hi i)"
      using in_use_if_published by blast
    moreover from i(1,2) assms(2) have "lo \<le> ?r \<and> ?r \<le> hi" by simp
    ultimately show ?thesis using i by blast
  next
    assume e: "(\<forall>j<nat N. is_port_in_use_docker (cl j) (tcp lo hi j)) \<and>
       ?r = (if 0 < N then tcp lo hi (nat N - 1) else hi)"
    have "lo \<le> ?r \<and> ?r \<le> hi"
    proof (cases "0 < N")
      case True
      then have "nat N - 1 < nat N" by simp
      with assms(2) have "lo \<le> tcp lo hi (nat N - 1) \<and> tcp lo hi (nat N - 1) \<le> hi" by blast
      with e True show ?thesis by simp
    next
      case False
      with e assms(1) show ?thesis by simp
    qed
    with e show ?thesis by blast
  qed
qed

theorem find_available_port_verified_or_exhausted_witness:
  "find_available_port (\<lambda>lo hi k. if k = 0 then (30001::int) else 30002)
      (\<lambda>k. [[(''30001/tcp'', Some [\<lparr>HostIp = ''127.0.0.1'', HostPort = ''30001''\<rparr>])]])
      (30000, 39999) 5 \<in> {30000..39999}"
proof -
  have h1: "(30000::int) \<le> 39999" by simp
  have h2: "\<forall>k. k < nat 5 \<longrightarrow>
      30000 \<le> (\<lambda>lo hi k. if k = 0 then (30001::int) else 30002) (30000::int) (39999::int) k \<and>
      (\<lambda>lo hi k. if k = 0 then (30001::int) else 30002) (30000::int) (39999::int) k \<le> (39999::int)"
    by simp
  from find_available_port_verified_or_exhausted [OF h1 h2]
  show ?thesis by simp
qed

text \<open>
  The claim as stated fails for a budget of zero rounds: nothing is drawn, and the upper
  end of the range is returned, here a port that a running container publishes, while
  every candidate the port query would have drawn is \<open>30000\<close>.
\<close>

theorem find_available_port_zero_budget_counterexample:
  "find_available_port (\<lambda>lo hi k. 30000)
      (\<lambda>k. [[(''39999/tcp'', Some [\<lparr>HostIp = ''127.0.0.1'', HostPort = ''39999''\<rparr>])]])
      (30000, 39999) 0 = 39999
   \<and> publishes [(''39999/tcp'', Some [\<lparr>HostIp = ''127.0.0.1'', HostPort = ''39999''\<rparr>])] 39999"
  by (simp add: find_available_port_def publishes_def str_int_def str_nat.simps digit_char_def)

section \<open>Properties of the network mode resolver\<close>

lemma init_pass_unbound:
  assumes "snd (resolve_network cfg (docker_version env)) = None"
  shows "\<exists>self' tr. init_pass cfg env self = (Returned (Inl (UnboundLocalError ''extra_hosts'')), self', tr)
     \<and> (\<forall>spec. ContainersRun spec \<notin> set tr)"
  using assms
  by (cases "resolve_network cfg (docker_version env)")
     (simp add: init_pass_def Let_def close_def)

text \<open>
  C1. With host networking off, a version query that raises leaves \<open>network_mode\<close> at
  bridge, as the claim says. The claim goes on: the host-gateway alias is registered and
  the failure never makes the operation raise. The code does neither. Only the branch
  for an engine that is not Docker Desktop binds \<open>extra_hosts\<close>; after a failed query the
  variable is unbound, so evaluating the arguments of \<open>containers.run\<close> raises
  \<open>UnboundLocalError\<close>, the general handler closes the runtime and raises it again, and
  no container is created.
\<close>

theorem init_container_raises_when_detection_fails:
  assumes "\<not> use_host_network cfg" and "docker_version env = Inl e"
  shows "resolve_network cfg (docker_version env) = (Some ''bridge'', None) \<and>
    (\<exists>self' tr. init_container cfg (env # envs) self =
        Some (Inl (UnboundLocalError ''extra_hosts''), self', tr) \<and>
      (\<forall>spec. ContainersRun spec \<notin> set tr))"
proof -
  have r: "resolve_network cfg (docker_version env) = (Some ''bridge'', None)"
    using assms by (simp add: resolve_network_def)
  then have "snd (resolve_network cfg (docker_version env)) = None" by simp
  from init_pass_unbound [OF this, of self]
  obtain self' tr where "init_pass cfg env self = (Returned (Inl (UnboundLocalError ''extra_hosts'')), self', tr)"
    and "\<forall>spec. ContainersRun spec \<notin> set tr"
    by blast
  then have "init_container cfg (env # envs) self = Some (Inl (UnboundLocalError ''extra_hosts''), self', tr) \<and>
      (\<forall>spec. ContainersRun spec \<notin> set tr)"
    by simp
  with r show ?thesis by blast
qed

theorem init_container_raises_when_detection_fails_witness:
  "result_of (init_container sample_config [sample_init_env (Inl ConnectionError) run_ok] sample_runtime)
     = Some (Inl (UnboundLocalError ''extra_hosts''))"
proof -
  have h1: "\<not> use_host_network sample_config" by (simp add: sample_config_def)
  have h2: "docker_version (sample_init_env (Inl ConnectionError) run_ok) = Inl ConnectionError"
    by (simp add: sample_init_env_def)
  from init_container_raises_when_detection_fails [OF h1 h2, of "[]" sample_runtime]
  show ?thesis by (auto simp: result_of_def)
qed

section \<open>Properties of the liveness wait\<close>

lemma wait_attempt_not_found:
  "container_get env = Inl (NotFound m) \<Longrightarrow>
   wait_attempt env self = (Inl (AgentRuntimeNotFoundError (''Container '' @ container_name self @ '' not found.'')), self, [ContainersGet (container_name self)])"
  by (simp add: wait_attempt_def wait_handlers_def)

text \<open>
  C3. The claim: a container that is not found during the liveness wait is retried. The
  retry predicate does accept \<open>docker.errors.NotFound\<close>, but the body of
  \<open>_wait_until_alive\<close> turns it into an \<open>AgentRuntimeNotFoundError\<close> before the decorator
  sees it. The predicate rejects that class, so the first attempt that finds no
  container ends the wait with that error, whatever the later answers would be and
  whether or not the stop condition holds.
\<close>

theorem wait_until_alive_not_found_is_not_retried:
  assumes "container_get env = Inl (NotFound m)"
  shows "\<not> is_retryable_wait_until_alive_error
           (AgentRuntimeNotFoundError (''Container '' @ container_name self @ '' not found.'')) \<and>
    wait_until_alive (env # envs) self =
      Some (Inl (AgentRuntimeNotFoundError (''Container '' @ container_name self @ '' not found.'')),
            self, [ContainersGet (container_name self)])"
  using wait_attempt_not_found [OF assms, of self] by simp

theorem wait_until_alive_not_found_is_not_retried_witness:
  "wait_until_alive
     [sample_probe_env\<lparr>container_get := Inl (NotFound ''404''), must_stop := False\<rparr>, sample_probe_env]
     sample_runtime =
   Some (Inl (AgentRuntimeNotFoundError ''Container openhands-runtime-abc not found.''),
         sample_runtime, [ContainersGet ''openhands-runtime-abc''])"
proof -
  have h: "container_get (sample_probe_env\<lparr>container_get := Inl (NotFound ''404''), must_stop := False\<rparr>)
      = Inl (NotFound ''404'')"
    by simp
  from wait_until_alive_not_found_is_not_retried [OF h, of sample_runtime "[sample_probe_env]"]
  show ?thesis by (simp add: sample_runtime_def)
qed







section \<open>Properties of the shared docker client\<close>

lemma init_docker_client_cached:
  "client_cache p = Some c \<Longrightarrow> init_docker_client fe p = (Inr c, p)"
  by (simp add: init_docker_client_def)

lemma init_docker_client_obtained:
  "init_docker_client fe p = (Inr c, p1) \<Longrightarrow> client_cache p1 = Some c \<and> closed_clients p1 = closed_clients p"
  by (auto simp: init_docker_client_def split: option.splits)

lemma delete_closes:
  assumes "init_docker_client (from_env env) p = (Inr c, p1)"
  shows "\<exists>r tr. delete env cid p = (r, p1\<lparr>closed_clients := insert c (closed_clients p1)\<rparr>, tr @ [ClientClose c])"
  using assms by (simp add: delete_def Let_def)

text \<open>
  C10. A \<open>delete\<close> that gets a client (the cache holds one, or \<open>docker.from_env()\<close>
  returns) closes it as its last step, whatever the lookup and the removal did. The
  cache keeps that client: every later \<open>_init_docker_client\<close>, so every later runtime
  object and every later \<open>delete\<close>, gets the same, closed client, and never calls
  \<open>docker.from_env()\<close> again.
\<close>

theorem delete_closes_the_shared_client:
  assumes "client_cache p \<noteq> None \<or> from_env env = None"
    and "delete env conversation_id p = (r, p', tr)"
  shows "\<exists>c. last tr = ClientClose c \<and> client_cache p' = Some c \<and> c \<in> closed_clients p' \<and>
      (\<forall>fe. init_docker_client fe p' = (Inr c, p')) \<and>
      (\<forall>env' cid' r' p'' tr'. delete env' cid' p' = (r', p'', tr') \<longrightarrow>
          last tr' = ClientClose c \<and> client_cache p'' = Some c \<and> c \<in> closed_clients p'')"
proof -
  from assms(1) have "\<exists>c p1. init_docker_client (from_env env) p = (Inr c, p1)"
    by (cases "client_cache p") (auto simp: init_docker_client_def)
  then obtain c p1 where i: "init_docker_client (from_env env) p = (Inr c, p1)"
    by blast
  from init_docker_client_obtained [OF i] have c1: "client_cache p1 = Some c" by simp
  from delete_closes [OF i, of conversation_id] assms(2)
  obtain tr0 where p': "p' = p1\<lparr>closed_clients := insert c (closed_clients p1)\<rparr>"
    and tr: "tr = tr0 @ [ClientClose c]"
    by auto
  from p' c1 have cache: "client_cache p' = Some c" and closed: "c \<in> closed_clients p'"
    by simp_all
  have later_init: "\<forall>fe. init_docker_client fe p' = (Inr c, p')"
    using cache by (simp add: init_docker_client_cached)
  have later_delete: "\<forall>env' cid' r' p'' tr'. delete env' cid' p' = (r', p'', tr') \<longrightarrow>
          last tr' = ClientClose c \<and> client_cache p'' = Some c \<and> c \<in> closed_clients p''"
  proof (intro allI impI)
    fix env' cid' r' p'' tr'
    assume d: "delete env' cid' p' = (r', p'', tr')"
    from later_init have "init_docker_client (from_env env') p' = (Inr c, p')" by blast
    from delete_closes [OF this, of cid'] d cache
    show "last tr' = ClientClose c \<and> client_cache p'' = Some c \<and> c \<in> closed_clients p''"
      by auto
  qed
  from tr have "last tr = ClientClose c" by simp
  with cache closed later_init later_delete show ?thesis by blast
qed

theorem delete_closes_the_shared_client_witness:
  "snd (delete \<lparr>from_env = None, get_container = Some (NotFound ''404''), remove_container = None\<rparr>
          ''xyz'' \<lparr>client_cache = None, next_client = 0, closed_clients = {}\<rparr>) =
     (\<lparr>client_cache = Some 0, next_client = 1, closed_clients = {0}\<rparr>,
      [ContainersGet ''openhands-runtime-xyz'', ClientClose 0])
   \<and> init_docker_client None \<lparr>client_cache = Some 0, next_client = 1, closed_clients = {0}\<rparr> =
     (Inr 0, \<lparr>client_cache = Some 0, next_client = 1, closed_clients = {0}\<rparr>)"
proof -
  let ?env = "\<lparr>from_env = None, get_container = Some (NotFound ''404''), remove_container = None\<rparr>"
  let ?p = "\<lparr>client_cache = None, next_client = 0, closed_clients = {}\<rparr>"
  let ?p' = "\<lparr>client_cache = Some 0, next_client = 1, closed_clients = {0}\<rparr>"
  have h1: "client_cache ?p \<noteq> None \<or> from_env ?env = None" by simp
  have h2: "delete ?env ''xyz'' ?p = (Inr (), ?p', [ContainersGet ''openhands-runtime-xyz'', ClientClose 0])"
    by (simp add: delete_def init_docker_client_def CONTAINER_NAME_PREFIX_def)
  from delete_closes_the_shared_client [OF h1 h2]
  have "init_docker_client None ?p' = (Inr 0, ?p')" by auto
  with h2 show ?thesis by simp
qed

section \<open>Properties of \<open>connect\<close>\<close>

lemma attach_to_container_lookup_fails:
  "attach_to_container cfg (Inl e) self = (Inl e, self, [ContainersGet (container_name self)])"
  by (simp add: attach_to_container_def)

text \<open>
  C2. In attach-only mode, with every lookup of the container answering not found,
  \<open>connect\<close> ends with an \<open>AgentRuntimeDisconnectedError\<close>. It makes one attach attempt,
  which is within the three the loop allows, so there is no pause to take between
  attempts; it builds no image and creates no container, and the runtime object is
  left as it was.
\<close>

theorem connect_attach_only_absent_container:
  assumes "attach_to_existing self"
    and "\<forall>k. \<exists>m. attach_get env k = Inl (NotFound m)"
  shows "\<exists>tr. connect cfg env self = Some (Inl (AgentRuntimeDisconnectedError []), self, tr) \<and>
      tr = [Status ''STATUS$STARTING_RUNTIME'', ContainersGet (container_name self)] \<and>
      length (filter is_ContainersGet tr) \<le> 3 \<and>
      BuildRuntimeImage \<notin> set tr \<and>
      (\<forall>spec. ContainersRun spec \<notin> set tr)"
proof -
  from assms(2) obtain m where m: "attach_get env 0 = Inl (NotFound m)" by blast
  have "attach_or_create cfg env 0 self =
      Some (Inl (AgentRuntimeDisconnectedError []), self, [ContainersGet (container_name self)])"
    using assms(1) m
    by (subst attach_or_create.simps) (simp add: attach_to_container_lookup_fails)
  then show ?thesis by (simp add: connect_def)
qed

theorem connect_attach_only_absent_container_witness:
  "connect sample_config
      \<lparr>attach_get = (\<lambda>k. Inl (NotFound ''404'')), build_runtime_image = Inr ''image'',
       init_envs = [], probe_envs = [], setup_initial_env = None\<rparr>
      (sample_runtime\<lparr>attach_to_existing := True\<rparr>) =
   Some (Inl (AgentRuntimeDisconnectedError []), sample_runtime\<lparr>attach_to_existing := True\<rparr>,
         [Status ''STATUS$STARTING_RUNTIME'', ContainersGet ''openhands-runtime-abc''])"
proof -
  let ?env = "\<lparr>attach_get = (\<lambda>k. Inl (NotFound ''404'')), build_runtime_image = Inr ''image'',
       init_envs = [], probe_envs = [], setup_initial_env = None\<rparr>"
  have h1: "attach_to_existing (sample_runtime\<lparr>attach_to_existing := True\<rparr>)" by simp
  have h2: "\<forall>k. \<exists>m. attach_get ?env k = Inl (NotFound m)" by simp
  from connect_attach_only_absent_container [OF h1 h2, of sample_config]
  show ?thesis by (simp add: sample_runtime_def)
qed

section \<open>Properties of the name-conflict handler\<close>

lemma init_pass_conflict:
  assumes "snd (resolve_network cfg (docker_version env)) \<noteq> None"
    and "\<forall>spec. \<exists>m. containers_run env spec = Inl (APIError m) \<and> str_in ''409'' m"
  shows "\<exists>self' spec. init_pass cfg env self =
      (NameConflict, self',
       [Status ''STATUS$PREPARING_CONTAINER'', EngineVersion, ContainersRun spec,
        StopAllContainers (container_name self)]) \<and>
     container_name self' = container_name self"
proof -
  obtain nm hosts where r: "resolve_network cfg (docker_version env) = (nm, Some hosts)"
    using assms(1) by (cases "resolve_network cfg (docker_version env)") auto
  then have h: "\<not> use_host_network cfg"
    by (auto simp: resolve_network_def split: if_splits)
  let ?self1 = "allocate_ports env self"
  let ?self2 = "?self1\<lparr>api_url := ''http://'' @ hostname_of cfg @ '':'' @ str_int (container_port ?self1)\<rparr>"
  let ?spec = "\<lparr>image = runtime_container_image ?self2,
      command = startup_command env (container_port ?self2),
      network_mode = nm, ports = port_mapping_of cfg ?self2,
      name = container_name ?self2, environment = environment_of cfg ?self2,
      volumes = volumes_of cfg, extra_hosts = hosts,
      device_requests = enable_gpu cfg\<rparr>"
  from assms(2) obtain m where m: "containers_run env ?spec = Inl (APIError m)" "str_in ''409'' m"
    by blast
  have n: "container_name ?self2 = container_name self"
    by (simp add: allocate_ports_def Let_def)
  have "init_pass cfg env self =
      (NameConflict, ?self2,
       [Status ''STATUS$PREPARING_CONTAINER'', EngineVersion, ContainersRun ?spec,
        StopAllContainers (container_name self)])"
    using r h m n by (simp add: init_pass_def Let_def)
  with n show ?thesis by blast
qed

lemma init_container_after_conflicts:
  assumes "\<forall>env\<in>set conflicts.
      snd (resolve_network cfg (docker_version env)) \<noteq> None \<and>
      (\<forall>spec. \<exists>m. containers_run env spec = Inl (APIError m) \<and> str_in ''409'' m)"
  shows "\<exists>self' tr. container_name self' = container_name self \<and>
      length (filter is_ContainersRun tr) = length conflicts \<and>
      filter is_StopAllContainers tr =
        replicate (length conflicts) (StopAllContainers (container_name self)) \<and>
      (\<forall>rest. init_container cfg (conflicts @ rest) self =
         (case init_container cfg rest self' of
            None \<Rightarrow> None
          | Some (r, self'', tr') \<Rightarrow> Some (r, self'', tr @ tr')))"
  using assms
proof (induction conflicts arbitrary: self)
  case Nil
  have "\<forall>rest. init_container cfg ([] @ rest) self =
         (case init_container cfg rest self of
            None \<Rightarrow> None
          | Some (r, self'', tr') \<Rightarrow> Some (r, self'', [] @ tr'))"
    by (auto split: option.splits)
  then have "container_name self = container_name self \<and>
      length (filter is_ContainersRun []) = length ([]::init_env list) \<and>
      filter is_StopAllContainers [] =
        replicate (length ([]::init_env list)) (StopAllContainers (container_name self)) \<and>
      (\<forall>rest. init_container cfg ([] @ rest) self =
         (case init_container cfg rest self of
            None \<Rightarrow> None
          | Some (r, self'', tr') \<Rightarrow> Some (r, self'', [] @ tr')))"
    by simp
  then show ?case by blast
next
  case (Cons env conflicts)
  from Cons.prems have c: "snd (resolve_network cfg (docker_version env)) \<noteq> None"
      "\<forall>spec. \<exists>m. containers_run env spec = Inl (APIError m) \<and> str_in ''409'' m"
    by simp_all
  from init_pass_conflict [OF c, of self] obtain self1 spec
    where p: "init_pass cfg env self =
      (NameConflict, self1,
       [Status ''STATUS$PREPARING_CONTAINER'', EngineVersion, ContainersRun spec,
        StopAllContainers (container_name self)])"
      and n1: "container_name self1 = container_name self"
    by blast
  let ?tr1 = "[Status ''STATUS$PREPARING_CONTAINER'', EngineVersion, ContainersRun spec,
        StopAllContainers (container_name self)]"
  from Cons.prems have "\<forall>env\<in>set conflicts.
      snd (resolve_network cfg (docker_version env)) \<noteq> None \<and>
      (\<forall>spec. \<exists>m. containers_run env spec = Inl (APIError m) \<and> str_in ''409'' m)"
    by simp
  from Cons.IH [OF this, of self1] obtain self' tr
    where n: "container_name self' = container_name self1"
      and runs: "length (filter is_ContainersRun tr) = length conflicts"
      and stops: "filter is_StopAllContainers tr =
        replicate (length conflicts) (StopAllContainers (container_name self1))"
      and step: "\<forall>rest. init_container cfg (conflicts @ rest) self1 =
         (case init_container cfg rest self' of
            None \<Rightarrow> None
          | Some (r, self'', tr') \<Rightarrow> Some (r, self'', tr @ tr'))"
    by blast
  have "\<forall>rest. init_container cfg ((env # conflicts) @ rest) self =
         (case init_container cfg rest self' of
            None \<Rightarrow> None
          | Some (r, self'', tr') \<Rightarrow> Some (r, self'', (?tr1 @ tr) @ tr'))"
    using p step by (auto split: option.splits)
  moreover have "length (filter is_ContainersRun (?tr1 @ tr)) = length (env # conflicts)"
    using runs by simp
  moreover have "filter is_StopAllContainers (?tr1 @ tr) =
        replicate (length (env # conflicts)) (StopAllContainers (container_name self))"
    using stops n1 by simp
  moreover have "container_name self' = container_name self"
    using n n1 by simp
  ultimately show ?case by blast
qed

text \<open>
  C4, as amended. A creation that fails with a 409 error is followed by the removal of
  the containers of that name and by another full pass of \<open>_init_container\<close>, and the
  same handler is in force in that pass: after any number of name conflicts in a row
  there have been as many removals and as many creation calls, no conflict has been
  raised to the caller, and the outcome of the call is the outcome of the pass that
  follows. The code sets no bound on the number of passes: while the answers are all
  conflicts the function has not returned.
\<close>

theorem init_container_retries_every_name_conflict:
  assumes "\<forall>env\<in>set conflicts.
      snd (resolve_network cfg (docker_version env)) \<noteq> None \<and>
      (\<forall>spec. \<exists>m. containers_run env spec = Inl (APIError m) \<and> str_in ''409'' m)"
  shows "init_container cfg conflicts self = None \<and>
    (\<exists>self' tr.
      length (filter is_ContainersRun tr) = length conflicts \<and>
      filter is_StopAllContainers tr =
        replicate (length conflicts) (StopAllContainers (container_name self)) \<and>
      (\<forall>rest. init_container cfg (conflicts @ rest) self =
         (case init_container cfg rest self' of
            None \<Rightarrow> None
          | Some (r, self'', tr') \<Rightarrow> Some (r, self'', tr @ tr'))))"
proof -
  from init_container_after_conflicts [OF assms, of self] obtain self' tr
    where f: "length (filter is_ContainersRun tr) = length conflicts"
      "filter is_StopAllContainers tr =
        replicate (length conflicts) (StopAllContainers (container_name self))"
      "\<forall>rest. init_container cfg (conflicts @ rest) self =
         (case init_container cfg rest self' of
            None \<Rightarrow> None
          | Some (r, self'', tr') \<Rightarrow> Some (r, self'', tr @ tr'))"
    by blast
  from f(3) have "init_container cfg (conflicts @ []) self = None"
    by (simp del: append_Nil2)
  then have "init_container cfg conflicts self = None" by simp
  with f show ?thesis by blast
qed

lemma sample_conflict:
  "snd (resolve_network sample_config (docker_version (sample_init_env engine_version run_conflict))) \<noteq> None \<and>
   (\<forall>spec. \<exists>m. containers_run (sample_init_env engine_version run_conflict) spec = Inl (APIError m) \<and>
       str_in ''409'' m)"
  by (simp add: sample_config_def sample_init_env_def engine_version_def run_conflict_def
      resolve_network_def is_docker_desktop_def lower_def lower_char_def str_in_def sublist_Cons_right)

theorem init_container_retries_every_name_conflict_witness:
  "init_container sample_config
     [sample_init_env engine_version run_conflict, sample_init_env engine_version run_conflict]
     sample_runtime = None"
proof -
  have h: "\<forall>env\<in>set [sample_init_env engine_version run_conflict, sample_init_env engine_version run_conflict].
      snd (resolve_network sample_config (docker_version env)) \<noteq> None \<and>
      (\<forall>spec. \<exists>m. containers_run env spec = Inl (APIError m) \<and> str_in ''409'' m)"
    using sample_conflict by simp
  from init_container_retries_every_name_conflict [OF h, of sample_runtime]
  show ?thesis by blast
qed

text \<open>
  The claim as stated has the conflict of the second pass raised to the caller. Here
  the first two creation calls fail with a 409 error and the third succeeds: the call
  returns normally, after three creation calls.
\<close>

theorem init_container_second_conflict_counterexample:
  "result_of (init_container sample_config
     [sample_init_env engine_version run_conflict, sample_init_env engine_version run_conflict,
      sample_init_env engine_version run_ok] sample_runtime) = Some (Inr ())
   \<and> length (filter is_ContainersRun (trace_of (init_container sample_config
     [sample_init_env engine_version run_conflict, sample_init_env engine_version run_conflict,
      sample_init_env engine_version run_ok] sample_runtime))) = 3"
  by (simp add: result_of_def trace_of_def init_pass_def sample_config_def sample_init_env_def
      engine_version_def run_ok_def run_conflict_def sample_runtime_def sample_container_def
      resolve_network_def is_docker_desktop_def lower_def lower_char_def str_in_def
      sublist_Cons_right Let_def)

section \<open>Properties of the container environment\<close>

lemma map_of_dict_update:
  "distinct (map fst other) \<Longrightarrow>
   map_of (dict_update d other) k =
     (case map_of other k of Some v \<Rightarrow> Some v | None \<Rightarrow> map_of d k)"
proof (induction other arbitrary: d)
  case Nil
  then show ?case by (simp add: dict_update_def)
next
  case (Cons x other)
  have u: "dict_update d (x # other) = dict_update (AList.update (fst x) (snd x) d) other"
    by (simp add: dict_update_def)
  from Cons.prems have d: "distinct (map fst other)" and nx: "fst x \<notin> fst ` set other"
    by simp_all
  from nx have none: "map_of other (fst x) = None"
    by (simp add: map_of_eq_None_iff)
  show ?case
  proof (cases "k = fst x")
    case True
    with none Cons.IH [OF d, of "AList.update (fst x) (snd x) d"] u show ?thesis
      by (cases x) (simp add: update_conv')
  next
    case False
    with Cons.IH [OF d, of "AList.update (fst x) (snd x) d"] u show ?thesis
      by (cases x) (auto simp: update_conv' split: option.splits)
  qed
qed

lemma computed_environment_port:
  "map_of (computed_environment cfg self) ''port'' = Some (str_int (container_port self))"
  by (simp add: computed_environment_def Let_def update_conv')

lemma computed_environment_vscode_port:
  "map_of (computed_environment cfg self) ''VSCODE_PORT'' = Some (str_int (vscode_port self))"
  by (simp add: computed_environment_def Let_def update_conv')

lemma computed_environment_unbuffered:
  "map_of (computed_environment cfg self) ''PYTHONUNBUFFERED'' = Some ''1''"
  by (simp add: computed_environment_def Let_def update_conv')

lemma computed_environment_platform:
  "map_of (computed_environment cfg self) ''DOCKER_DEFAULT_PLATFORM'' =
     Some (or_default (platform cfg) ''linux/amd64'')"
  by (simp add: computed_environment_def Let_def update_conv')

lemma init_pass_run_environment:
  assumes "init_pass cfg env self = (r, self', tr)" and "ContainersRun spec \<in> set tr"
  shows "environment spec = environment_of cfg self'"
proof -
  obtain nm eh where rn: "resolve_network cfg (docker_version env) = (nm, eh)"
    by (cases "resolve_network cfg (docker_version env)") auto
  have e: "\<And>s c. environment_of cfg (s\<lparr>container := c\<rparr>) = environment_of cfg s"
    by (simp add: environment_of_def computed_environment_def Let_def)
  show ?thesis
    using assms rn
    by (auto simp: init_pass_def Let_def close_def e split: option.splits sum.splits if_splits)
qed

text \<open>
  C7, as amended. In every pass that reaches the creation call, the environment handed
  to the engine has an entry for \<open>port\<close>, \<open>VSCODE_PORT\<close>, \<open>PYTHONUNBUFFERED\<close> and
  \<open>DOCKER_DEFAULT_PLATFORM\<close>. The caller-supplied startup entries are merged last with
  \<open>update\<close>: the value of every key they name is theirs, whichever key it is, and the
  keys they do not name keep the computed values, the control port under \<open>port\<close> and
  the editor port under \<open>VSCODE_PORT\<close> among them.
\<close>

theorem environment_startup_entries_override:
  assumes "init_pass cfg env self = (r, self', tr)"
    and "ContainersRun spec \<in> set tr"
    and "distinct (map fst (runtime_startup_env_vars cfg))"
  shows "(\<forall>k. map_of (environment spec) k =
        (case map_of (runtime_startup_env_vars cfg) k of
           Some v \<Rightarrow> Some v
         | None \<Rightarrow> map_of (computed_environment cfg self') k)) \<and>
    map_of (computed_environment cfg self') ''port'' = Some (str_int (container_port self')) \<and>
    map_of (computed_environment cfg self') ''VSCODE_PORT'' = Some (str_int (vscode_port self')) \<and>
    map_of (computed_environment cfg self') ''PYTHONUNBUFFERED'' = Some ''1'' \<and>
    map_of (computed_environment cfg self') ''DOCKER_DEFAULT_PLATFORM'' =
      Some (or_default (platform cfg) ''linux/amd64'') \<and>
    {''port'', ''VSCODE_PORT'', ''PYTHONUNBUFFERED'', ''DOCKER_DEFAULT_PLATFORM''}
      \<subseteq> dom (map_of (environment spec))"
proof -
  have env: "environment spec = environment_of cfg self'"
    using assms(1,2) by (rule init_pass_run_environment)
  have m: "\<forall>k. map_of (environment spec) k =
        (case map_of (runtime_startup_env_vars cfg) k of
           Some v \<Rightarrow> Some v
         | None \<Rightarrow> map_of (computed_environment cfg self') k)"
    unfolding env environment_of_def using map_of_dict_update [OF assms(3)] by blast
  have "k \<in> dom (map_of (environment spec))"
    if "map_of (computed_environment cfg self') k = Some v" for k v
  proof (cases "map_of (runtime_startup_env_vars cfg) k")
    case None
    with m that have "map_of (environment spec) k = Some v" by simp
    then show ?thesis by blast
  next
    case (Some w)
    with m have "map_of (environment spec) k = Some w" by simp
    then show ?thesis by blast
  qed
  with computed_environment_port computed_environment_vscode_port
    computed_environment_unbuffered computed_environment_platform
  have "{''port'', ''VSCODE_PORT'', ''PYTHONUNBUFFERED'', ''DOCKER_DEFAULT_PLATFORM''}
      \<subseteq> dom (map_of (environment spec))"
    by blast
  with m computed_environment_port computed_environment_vscode_port
    computed_environment_unbuffered computed_environment_platform
  show ?thesis by blast
qed


theorem environment_startup_entries_override_witness:
  "\<exists>spec. ContainersRun spec \<in>
        set (snd (snd (init_pass sample_config (sample_init_env engine_version run_ok) sample_runtime))) \<and>
      map_of (environment spec) ''port'' = Some ''30001''"
proof -
  let ?env = "sample_init_env engine_version run_ok"
  obtain r self' tr where p: "init_pass sample_config ?env sample_runtime = (r, self', tr)"
    by (cases "init_pass sample_config ?env sample_runtime") auto
  have ports: "container_port self' = 30001"
    using p
    by (auto simp: init_pass_def Let_def allocate_ports_def sample_init_env_def
        find_available_port_def EXECUTION_SERVER_PORT_RANGE_def numeral_eq_Suc
        split: prod.splits option.splits sum.splits if_splits)
  have "\<exists>spec. ContainersRun spec \<in> set tr"
    using p
    by (auto simp: init_pass_def Let_def sample_config_def sample_init_env_def engine_version_def
        resolve_network_def is_docker_desktop_def lower_def lower_char_def str_in_def
        sublist_Cons_right run_ok_def sample_container_def
        split: prod.splits)
  then obtain spec where s: "ContainersRun spec \<in> set tr" by blast
  have d: "distinct (map fst (runtime_startup_env_vars sample_config))"
    by (simp add: sample_config_def)
  from environment_startup_entries_override [OF p s d]
  have "map_of (environment spec) ''port'' = Some (str_int (container_port self'))"
    by (simp add: sample_config_def)
  with ports have "map_of (environment spec) ''port'' = Some ''30001''"
    by (simp add: str_int_def str_nat.simps digit_char_def)
  with p s show ?thesis by auto
qed

text \<open>
  The claim as stated keeps the computed control-port entry out of the caller's reach.
  The code has no reserved keys: a startup entry keyed \<open>port\<close> replaces the computed
  value, here \<open>1\<close> for the control port 30001.
\<close>

theorem environment_reserved_key_counterexample:
  "map_of (environment_of (sample_config\<lparr>runtime_startup_env_vars := [(''port'', ''1'')]\<rparr>)
             (sample_runtime\<lparr>container_port := 30001\<rparr>)) ''port'' = Some ''1''
   \<and> str_int (container_port (sample_runtime\<lparr>container_port := 30001\<rparr>)) = ''30001''"
  by (simp add: environment_of_def computed_environment_def dict_update_def sample_config_def
      Let_def str_int_def str_nat.simps digit_char_def)

section \<open>Properties of the initial-environment setup\<close>

lemma read_env_attach_flag:
  "read_env es self = (r, self') \<Longrightarrow> attach_to_existing self' = attach_to_existing self"
proof (induction es arbitrary: self)
  case Nil
  then show ?case by simp
next
  case (Cons e es)
  show ?case
  proof (cases "startswith e ''port=''")
    case True
    with Cons.prems Cons.IH show ?thesis
      by (auto split: sum.splits)
  next
    case False
    with Cons.prems Cons.IH show ?thesis
      by (auto split: sum.splits if_splits)
  qed
qed

lemma read_exposed_attach_flag:
  "read_exposed es self = (r, self') \<Longrightarrow> attach_to_existing self' = attach_to_existing self"
proof (induction es arbitrary: self)
  case Nil
  then show ?case by simp
next
  case (Cons e es)
  with Cons.prems Cons.IH show ?case
    by (auto split: sum.splits if_splits)
qed

lemma attach_to_container_frame:
  assumes "attach_to_container cfg got self = (r, self', tr)"
  shows "attach_to_existing self' = attach_to_existing self \<and> SetupInitialEnv \<notin> set tr"
proof (cases got)
  case (Inl e)
  with assms show ?thesis by (auto simp: attach_to_container_def)
next
  case (Inr c)
  obtain r1 s1 where e: "read_env (Env c) (self\<lparr>container := Some c\<rparr>) = (r1, s1)"
    by (cases "read_env (Env c) (self\<lparr>container := Some c\<rparr>)") auto
  from read_env_attach_flag [OF e] have f1: "attach_to_existing s1 = attach_to_existing self" by simp
  obtain r2 s2 where x: "read_exposed (case ExposedPorts c of None \<Rightarrow> [] | Some ks \<Rightarrow> ks)
      (s1\<lparr>app_ports := []\<rparr>) = (r2, s2)"
    by (cases "read_exposed (case ExposedPorts c of None \<Rightarrow> [] | Some ks \<Rightarrow> ks) (s1\<lparr>app_ports := []\<rparr>)") auto
  from read_exposed_attach_flag [OF x] f1 have f2: "attach_to_existing s2 = attach_to_existing self" by simp
  from assms Inr e x f1 f2 show ?thesis
    by (auto simp: attach_to_container_def Let_def split: sum.splits)
qed

lemma init_pass_frame:
  assumes "init_pass cfg env self = (r, self', tr)"
  shows "attach_to_existing self' = attach_to_existing self \<and> SetupInitialEnv \<notin> set tr"
proof -
  obtain nm eh where rn: "resolve_network cfg (docker_version env) = (nm, eh)"
    by (cases "resolve_network cfg (docker_version env)") auto
  have a: "attach_to_existing (allocate_ports env self) = attach_to_existing self"
    by (simp add: allocate_ports_def Let_def)
  show ?thesis
    using assms rn a
    by (auto simp: init_pass_def Let_def close_def split: option.splits sum.splits if_splits)
qed

lemma init_container_frame:
  "init_container cfg envs self = Some (r, self', tr) \<Longrightarrow>
   attach_to_existing self' = attach_to_existing self \<and> SetupInitialEnv \<notin> set tr"
proof (induction envs arbitrary: self r self' tr)
  case Nil
  then show ?case by simp
next
  case (Cons env envs)
  obtain e s1 t1 where p: "init_pass cfg env self = (e, s1, t1)"
    by (cases "init_pass cfg env self") auto
  from init_pass_frame [OF p] have f: "attach_to_existing s1 = attach_to_existing self"
      "SetupInitialEnv \<notin> set t1"
    by simp_all
  show ?case
  proof (cases e)
    case (Returned x)
    with Cons.prems p f show ?thesis by simp
  next
    case NameConflict
    with Cons.prems p obtain t2 where
      "init_container cfg envs s1 = Some (r, self', t2)" "tr = t1 @ t2"
      by (auto split: option.splits)
    with Cons.IH [of s1 r self' t2] f show ?thesis by simp
  qed
qed

lemma provision_frame:
  assumes "provision cfg env self = Some (r, self', tr)"
  shows "attach_to_existing self' = attach_to_existing self \<and> SetupInitialEnv \<notin> set tr"
  using assms
  by (auto simp: provision_def split: if_splits sum.splits option.splits dest!: init_container_frame)

lemma attach_or_create_frame_aux:
  "3 - retry_count = n \<Longrightarrow>
   attach_or_create cfg env retry_count self = Some (r, self', tr) \<Longrightarrow>
   attach_to_existing self' = attach_to_existing self \<and> SetupInitialEnv \<notin> set tr"
proof (induction n arbitrary: retry_count self r self' tr)
  case 0
  then have "\<not> retry_count < 3" by simp
  with "0.prems"(2) show ?case
    by (subst (asm) attach_or_create.simps) simp
next
  case (Suc n)
  then have lt: "retry_count < 3" and m: "3 - (retry_count + 1) = n" by simp_all
  note IH = Suc.IH [OF m]
  obtain ra s1 t1 where a: "attach_to_container cfg (attach_get env retry_count) self = (ra, s1, t1)"
    by (cases "attach_to_container cfg (attach_get env retry_count) self") auto
  from attach_to_container_frame [OF a] have f1: "attach_to_existing s1 = attach_to_existing self"
      "SetupInitialEnv \<notin> set t1"
    by simp_all
  note run = Suc.prems(2) [unfolded attach_or_create.simps [of cfg env retry_count self]]
  show ?case
  proof (cases ra)
    case (Inr u)
    with run lt a f1 show ?thesis by auto
  next
    case (Inl e)
    show ?thesis
    proof (cases "is_NotFound_or_ConnectTimeout e")
      case False
      with run lt a f1 Inl show ?thesis by auto
    next
      case nf: True
      show ?thesis
      proof (cases "retry_count + 1 \<ge> 3 \<or> attach_to_existing s1")
        case False
        with run lt a Inl nf obtain t2 where
          rec: "attach_or_create cfg env (retry_count + 1) s1 = Some (r, self', t2)"
          and tr: "tr = t1 @ [Sleep (2 ^ (retry_count + 1))] @ t2"
          by (auto split: option.splits)
        from IH [OF rec] f1 tr show ?thesis by auto
      next
        case lim: True
        show ?thesis
        proof (cases "attach_to_existing s1")
          case True
          with run lt a Inl nf lim f1 show ?thesis by auto
        next
          case ne: False
          from run lt a Inl nf lim ne
          have "provision cfg env s1 \<noteq> None"
            by (auto split: option.splits)
          then obtain rp s2 t2 where pr: "provision cfg env s1 = Some (rp, s2, t2)"
            by (cases "provision cfg env s1") auto
          from run lt a Inl nf lim ne pr
          have c: "case rp of Inl e' \<Rightarrow> r = Inl e' \<and> self' = s2 \<and> tr = t1 @ t2
               | Inr u \<Rightarrow> (\<exists>t3. attach_or_create cfg env (retry_count + 1) s2 = Some (r, self', t3) \<and>
                    tr = t1 @ t2 @ t3)"
            by (cases rp) (auto split: option.splits)
          from provision_frame [OF pr] f1 have f2: "attach_to_existing s2 = attach_to_existing self"
              "SetupInitialEnv \<notin> set t2"
            by simp_all
          show ?thesis
          proof (cases rp)
            case (Inl e')
            with c f1 f2 show ?thesis by simp
          next
            case (Inr u)
            with c obtain t3 where rec: "attach_or_create cfg env (retry_count + 1) s2 = Some (r, self', t3)"
              and tr: "tr = t1 @ t2 @ t3"
              by auto
            from IH [OF rec] f1 f2 tr show ?thesis by simp
          qed
        qed
      qed
    qed
  qed
qed

lemma attach_or_create_frame:
  "attach_or_create cfg env retry_count self = Some (r, self', tr) \<Longrightarrow>
   attach_to_existing self' = attach_to_existing self \<and> SetupInitialEnv \<notin> set tr"
  by (rule attach_or_create_frame_aux [OF refl])

lemma wait_attempt_frame:
  "wait_attempt env self = (r, self', tr) \<Longrightarrow>
   attach_to_existing self' = attach_to_existing self \<and> SetupInitialEnv \<notin> set tr"
  by (auto simp: wait_attempt_def Let_def split: sum.splits if_splits option.splits)

lemma wait_until_alive_frame:
  "wait_until_alive envs self = Some (r, self', tr) \<Longrightarrow>
   attach_to_existing self' = attach_to_existing self \<and> SetupInitialEnv \<notin> set tr"
proof (induction envs arbitrary: self r self' tr)
  case Nil
  then show ?case by simp
next
  case (Cons env envs)
  obtain ra s1 t1 where a: "wait_attempt env self = (ra, s1, t1)"
    by (cases "wait_attempt env self") auto
  from wait_attempt_frame [OF a] have f: "attach_to_existing s1 = attach_to_existing self"
      "SetupInitialEnv \<notin> set t1"
    by simp_all
  show ?case
  proof (cases "\<exists>t2. wait_until_alive envs s1 = Some (r, self', t2) \<and> tr = t1 @ t2")
    case True
    then obtain t2 where "wait_until_alive envs s1 = Some (r, self', t2)" "tr = t1 @ t2"
      by blast
    with Cons.IH [of s1 r self' t2] f show ?thesis by simp
  next
    case False
    with Cons.prems a have "r = ra \<and> self' = s1 \<and> tr = t1"
      by (auto split: sum.splits if_splits option.splits)
    with f show ?thesis by simp
  qed
qed


text \<open>
  C8, as amended. In every \<open>connect\<close> that returns or raises, \<open>setup_initial_env\<close> is
  called exactly when the runtime was not asked to attach only (\<open>attach_to_existing\<close> is
  off), the attach-or-create phase has ended normally and the liveness wait after it
  has succeeded; this holds whether the phase created the container or found it
  already there. The call comes after every event of that phase and of the liveness
  wait, and only a status message may follow it.
\<close>

theorem connect_setup_initial_env_follows_flag:
  assumes "connect cfg env self = Some (r, self', tr)"
  shows "((SetupInitialEnv \<in> set tr) =
      (\<not> attach_to_existing self \<and>
       (\<exists>self1 tr1 self3 tr3.
          attach_or_create cfg env 0 self = Some (Inr (), self1, tr1) \<and>
          wait_until_alive (probe_envs env) (self1\<lparr>log_streamer := DEBUG_RUNTIME cfg\<rparr>) =
            Some (Inr (), self3, tr3)))) \<and>
    (SetupInitialEnv \<in> set tr \<longrightarrow>
       (\<exists>self1 tr1 self3 tr3 post.
          attach_or_create cfg env 0 self = Some (Inr (), self1, tr1) \<and>
          wait_until_alive (probe_envs env) (self1\<lparr>log_streamer := DEBUG_RUNTIME cfg\<rparr>) =
            Some (Inr (), self3, tr3) \<and>
          tr = [Status ''STATUS$STARTING_RUNTIME''] @ tr1 @ [Status ''STATUS$WAITING_FOR_CLIENT''] @
               tr3 @ [SetupInitialEnv] @ post \<and>
          SetupInitialEnv \<notin> set tr1 \<and> SetupInitialEnv \<notin> set tr3 \<and> SetupInitialEnv \<notin> set post))"
proof -
  from assms obtain ra self1 tr1 where a: "attach_or_create cfg env 0 self = Some (ra, self1, tr1)"
    by (cases "attach_or_create cfg env 0 self") (auto simp: connect_def)
  from attach_or_create_frame [OF a] have f1: "attach_to_existing self1 = attach_to_existing self"
      "SetupInitialEnv \<notin> set tr1"
    by simp_all
  show ?thesis
  proof (cases ra)
    case (Inl e)
    with assms a f1 show ?thesis by (auto simp: connect_def)
  next
    case (Inr u)
    let ?self2 = "self1\<lparr>log_streamer := DEBUG_RUNTIME cfg\<rparr>"
    from assms a Inr obtain rw self3 tr3 where w: "wait_until_alive (probe_envs env) ?self2 = Some (rw, self3, tr3)"
      by (cases "wait_until_alive (probe_envs env) ?self2") (auto simp: connect_def Let_def)
    from wait_until_alive_frame [OF w] f1 have f3: "attach_to_existing self3 = attach_to_existing self"
        "SetupInitialEnv \<notin> set tr3"
      by simp_all
    show ?thesis
    proof (cases rw)
      case (Inl e)
      with assms a Inr w f1 f3 show ?thesis by (auto simp: connect_def Let_def)
    next
      case ok: (Inr u')
      show ?thesis
      proof (cases "attach_to_existing self")
        case True
        with assms a Inr w ok f1 f3 show ?thesis by (auto simp: connect_def Let_def)
      next
        case False
        with assms a Inr w ok f1 f3
        have "\<exists>post. tr = [Status ''STATUS$STARTING_RUNTIME''] @ tr1 @ [Status ''STATUS$WAITING_FOR_CLIENT''] @
               tr3 @ [SetupInitialEnv] @ post \<and> SetupInitialEnv \<notin> set post"
          by (auto simp: connect_def Let_def split: option.splits)
        then obtain post where tr: "tr = [Status ''STATUS$STARTING_RUNTIME''] @ tr1 @ [Status ''STATUS$WAITING_FOR_CLIENT''] @
               tr3 @ [SetupInitialEnv] @ post" and post: "SetupInitialEnv \<notin> set post"
          by blast
        from tr have mem: "SetupInitialEnv \<in> set tr" by simp
        from a Inr have a': "attach_or_create cfg env 0 self = Some (Inr (), self1, tr1)" by simp
        from w ok have w': "wait_until_alive (probe_envs env) ?self2 = Some (Inr (), self3, tr3)" by simp
        from a' w' have ex1: "\<exists>self1 tr1 self3 tr3.
          attach_or_create cfg env 0 self = Some (Inr (), self1, tr1) \<and>
          wait_until_alive (probe_envs env) (self1\<lparr>log_streamer := DEBUG_RUNTIME cfg\<rparr>) =
            Some (Inr (), self3, tr3)"
          by blast
        from a' w' tr f1(2) f3(2) post have ex2: "\<exists>self1 tr1 self3 tr3 post.
          attach_or_create cfg env 0 self = Some (Inr (), self1, tr1) \<and>
          wait_until_alive (probe_envs env) (self1\<lparr>log_streamer := DEBUG_RUNTIME cfg\<rparr>) =
            Some (Inr (), self3, tr3) \<and>
          tr = [Status ''STATUS$STARTING_RUNTIME''] @ tr1 @ [Status ''STATUS$WAITING_FOR_CLIENT''] @
               tr3 @ [SetupInitialEnv] @ post \<and>
          SetupInitialEnv \<notin> set tr1 \<and> SetupInitialEnv \<notin> set tr3 \<and> SetupInitialEnv \<notin> set post"
          by blast
        from False mem ex1 ex2 show ?thesis by simp
      qed
    qed
  qed
qed

lemma sample_attach:
  "attach_to_container sample_config (Inr sample_container) sample_runtime =
   (Inr (),
    sample_runtime\<lparr>container := Some sample_container, host_port := 30001, container_port := 30001,
      vscode_port := 40001, app_ports := [50001, 55001], api_url := ''http://127.0.0.1:30001''\<rparr>,
    [ContainersGet ''openhands-runtime-abc''])"
  by (simp add: attach_to_container_def sample_container_def sample_runtime_def sample_config_def
      startswith_def split_def index_def py_int_def strip_def is_space_def parse_decimal_def
      digit_val_def Let_def str_int_def str_nat.simps digit_char_def)

lemma sample_attach_or_create:
  "attach_or_create sample_config sample_connect_env 0 sample_runtime =
   Some (Inr (),
     sample_runtime\<lparr>container := Some sample_container, host_port := 30001, container_port := 30001,
       vscode_port := 40001, app_ports := [50001, 55001], api_url := ''http://127.0.0.1:30001''\<rparr>,
     [ContainersGet ''openhands-runtime-abc''])"
  by (subst attach_or_create.simps) (simp add: sample_attach sample_connect_env_def)

lemma sample_wait_until_alive:
  assumes "container_name self = ''openhands-runtime-abc''"
  shows "wait_until_alive [sample_probe_env] self =
    Some (Inr (), self, [ContainersGet ''openhands-runtime-abc'', CheckIfAlive])"
  using assms
  by (simp add: wait_attempt_def sample_probe_env_def sample_container_def truthy_def)

lemma sample_connect:
  "connect sample_config sample_connect_env sample_runtime =
   Some (Inr (),
     sample_runtime\<lparr>container := Some sample_container, host_port := 30001, container_port := 30001,
       vscode_port := 40001, app_ports := [50001, 55001], api_url := ''http://127.0.0.1:30001'',
       log_streamer := False, runtime_initialized := True\<rparr>,
     [Status ''STATUS$STARTING_RUNTIME'', ContainersGet ''openhands-runtime-abc'',
      Status ''STATUS$WAITING_FOR_CLIENT'', ContainersGet ''openhands-runtime-abc'', CheckIfAlive,
      SetupInitialEnv, Status '' ''])"
proof -
  let ?self1 = "sample_runtime\<lparr>container := Some sample_container, host_port := 30001, container_port := 30001,
       vscode_port := 40001, app_ports := [50001, 55001], api_url := ''http://127.0.0.1:30001''\<rparr>"
  have n: "\<not> attach_to_existing sample_runtime" "\<not> DEBUG_RUNTIME sample_config"
    by (simp_all add: sample_runtime_def sample_config_def)
  have p: "probe_envs sample_connect_env = [sample_probe_env]"
      "setup_initial_env sample_connect_env = None"
    by (simp_all add: sample_connect_env_def)
  have w: "wait_until_alive [sample_probe_env] (?self1\<lparr>log_streamer := False\<rparr>) =
      Some (Inr (), ?self1\<lparr>log_streamer := False\<rparr>,
            [ContainersGet ''openhands-runtime-abc'', CheckIfAlive])"
    by (rule sample_wait_until_alive) (simp add: sample_runtime_def)
  show ?thesis
    by (simp add: connect_def sample_attach_or_create w n p Let_def del: wait_until_alive.simps)
qed

theorem connect_setup_initial_env_follows_flag_witness:
  "\<not> attach_to_existing sample_runtime \<and>
   (\<exists>self1 tr1 self3 tr3.
      attach_or_create sample_config sample_connect_env 0 sample_runtime = Some (Inr (), self1, tr1) \<and>
      wait_until_alive (probe_envs sample_connect_env)
        (self1\<lparr>log_streamer := DEBUG_RUNTIME sample_config\<rparr>) = Some (Inr (), self3, tr3))"
  using connect_setup_initial_env_follows_flag [OF sample_connect] by simp

text \<open>
  The claim as stated rules the setup out when the container was not created by this
  \<open>connect\<close>. Here \<open>attach_to_existing\<close> is off and the container of the session is
  already there: the first attach attempt succeeds, nothing is built or created, and
  the setup still runs after the liveness probe.
\<close>

theorem connect_setup_after_attach_counterexample:
  "trace_of (connect sample_config sample_connect_env sample_runtime) =
     [Status ''STATUS$STARTING_RUNTIME'', ContainersGet ''openhands-runtime-abc'',
      Status ''STATUS$WAITING_FOR_CLIENT'', ContainersGet ''openhands-runtime-abc'', CheckIfAlive,
      SetupInitialEnv, Status '' '']"
  by (simp add: sample_connect trace_of_def)

section \<open>Properties of the string helpers\<close>

lemma digit_val_digit_char: "d < 10 \<Longrightarrow> digit_val (digit_char d) = Some d"
proof -
  assume "d < 10"
  then have "d = 0 \<or> d = 1 \<or> d = 2 \<or> d = 3 \<or> d = 4 \<or> d = 5 \<or> d = 6 \<or> d = 7 \<or> d = 8 \<or> d = 9"
    by arith
  then show ?thesis
    by (auto simp: digit_val_def digit_char_def)
qed

lemma digit_val_range: "digit_val c = Some d \<Longrightarrow> 48 \<le> (of_char c :: nat) \<and> (of_char c :: nat) \<le> 57"
  by (auto simp: digit_val_def Let_def split: if_splits)

lemma digit_not_space: "digit_val c = Some d \<Longrightarrow> \<not> is_space c"
  by (auto simp: is_space_def Let_def dest!: digit_val_range)

lemma digit_not_special:
  assumes "digit_val c = Some d"
  shows "c \<noteq> CHR ''_''" "c \<noteq> CHR ''-''" "c \<noteq> CHR ''+''" "c \<noteq> CHR ''p''" "c \<noteq> CHR ''V''" "c \<noteq> CHR ''/''"
  using digit_val_range [OF assms] by auto

lemma parse_digits_all_digits:
  "\<forall>c\<in>set s. digit_val c \<noteq> None \<Longrightarrow> parse_digits acc s = Some (digits_value acc s)"
proof (induction s arbitrary: acc)
  case Nil
  then show ?case by (simp add: digits_value_def)
next
  case (Cons c s)
  then obtain v where v: "digit_val c = Some v" by auto
  from digit_not_special(1) [OF v] v Cons show ?case
    by (simp add: digits_value_def)
qed

lemma str_nat_digits: "\<forall>c\<in>set (str_nat n). digit_val c \<noteq> None"
proof (induction n rule: str_nat.induct)
  case (1 n)
  show ?case
  proof (cases "n < 10")
    case True
    then show ?thesis
      by (subst str_nat.simps) (simp add: digit_val_digit_char)
  next
    case False
    have "n mod 10 < 10" by simp
    with False 1 show ?thesis
      by (subst str_nat.simps) (auto simp: digit_val_digit_char)
  qed
qed

lemma str_nat_nonempty: "str_nat n \<noteq> []"
  by (subst str_nat.simps) simp

lemma digits_value_str_nat: "digits_value 0 (str_nat n) = n"
proof (induction n rule: str_nat.induct)
  case (1 n)
  show ?case
  proof (cases "n < 10")
    case True
    then show ?thesis
      by (subst str_nat.simps) (simp add: digits_value_def digit_val_digit_char)
  next
    case False
    have m: "n mod 10 < 10" by simp
    from False 1 have "digits_value 0 (str_nat (n div 10)) = n div 10" by simp
    with False m show ?thesis
      by (subst str_nat.simps) (simp add: digits_value_def digit_val_digit_char)
  qed
qed

lemma parse_decimal_str_nat: "parse_decimal (str_nat n) = Some n"
proof -
  obtain c cs where s: "str_nat n = c # cs"
    using str_nat_nonempty [of n] by (cases "str_nat n") auto
  with str_nat_digits [of n] obtain v where v: "digit_val c = Some v" and cs: "\<forall>c\<in>set cs. digit_val c \<noteq> None"
    by auto
  have "digits_value 0 (c # cs) = digits_value v cs"
    using v by (simp add: digits_value_def)
  with digits_value_str_nat [of n] s have "digits_value v cs = n" by simp
  with parse_digits_all_digits [OF cs, of v] v s show ?thesis
    by (simp add: parse_decimal_def)
qed

lemma strip_no_space:
  assumes "s \<noteq> []" and "\<not> is_space (hd s)" and "\<not> is_space (last s)"
  shows "strip s = s"
proof -
  from assms(1,2) have a: "dropWhile is_space s = s"
    by (simp add: dropWhile_eq_self_iff)
  from assms(1,3) have "dropWhile is_space (rev s) = rev s"
    by (simp add: dropWhile_eq_self_iff hd_rev)
  with a show ?thesis by (simp add: strip_def)
qed

lemma str_nat_ends: "\<not> is_space (hd (str_nat n)) \<and> \<not> is_space (last (str_nat n))"
proof -
  have "hd (str_nat n) \<in> set (str_nat n)" "last (str_nat n) \<in> set (str_nat n)"
    using str_nat_nonempty by simp_all
  with str_nat_digits [of n] show ?thesis
    by (metis digit_not_space not_None_eq)
qed

lemma py_int_str_int: "py_int (str_int i) = Inr i"
proof (cases "i < 0")
  case False
  let ?s = "str_nat (nat i)"
  have st: "strip ?s = ?s"
    using str_nat_nonempty str_nat_ends by (intro strip_no_space) auto
  obtain c cs where s: "?s = c # cs"
    using str_nat_nonempty [of "nat i"] by (cases ?s) auto
  with str_nat_digits [of "nat i"] obtain v where "digit_val c = Some v" by auto
  from digit_not_special(2,3) [OF this] have c: "c \<noteq> CHR ''-''" "c \<noteq> CHR ''+''" .
  from False st s c parse_decimal_str_nat [of "nat i"] show ?thesis
    by (simp add: py_int_def str_int_def Let_def)
next
  case True
  let ?s = "CHR ''-'' # str_nat (nat (- i))"
  have "\<not> is_space (CHR ''-'')" by (simp add: is_space_def)
  moreover have "last ?s = last (str_nat (nat (- i)))"
    using str_nat_nonempty by simp
  ultimately have st: "strip ?s = ?s"
    using str_nat_ends [of "nat (- i)"] by (intro strip_no_space) auto
  from True st parse_decimal_str_nat [of "nat (- i)"] show ?thesis
    by (simp add: py_int_def str_int_def Let_def)
qed

lemma str_int_inj: "str_int a = str_int b \<Longrightarrow> a = b"
  by (metis py_int_str_int sum.inject(2))

lemma str_int_chars:
  "CHR ''p'' \<notin> set (str_int i) \<and> CHR ''V'' \<notin> set (str_int i) \<and> CHR ''/'' \<notin> set (str_int i)"
proof -
  have "\<And>c n. c \<in> set (str_nat n) \<Longrightarrow> c \<noteq> CHR ''p'' \<and> c \<noteq> CHR ''V'' \<and> c \<noteq> CHR ''/''"
    using str_nat_digits digit_not_special by (metis not_None_eq)
  then show ?thesis
    by (auto simp: str_int_def)
qed

lemma split_from_no_sep:
  "sep \<noteq> [] \<Longrightarrow> hd sep \<notin> set t \<Longrightarrow> split_from sep acc t = [rev acc @ t]"
proof (induction t arbitrary: acc)
  case Nil
  then show ?case by simp
next
  case (Cons c t)
  then have "\<not> prefix sep (c # t)"
    by (cases sep) auto
  with Cons show ?case by simp
qed

lemma split_sep_first:
  assumes "sep \<noteq> []" and "hd sep \<notin> set t"
  shows "split (sep @ t) sep = [[], t]"
proof -
  obtain c cs where s: "sep = c # cs" using assms(1) by (cases sep) auto
  have "split_from sep [] (sep @ t) = [] # split_from sep [] t"
    unfolding s by simp
  with split_from_no_sep [OF assms, of "[]"] show ?thesis
    by (simp add: split_def)
qed

lemma split_from_sep_last:
  "sep \<noteq> [] \<Longrightarrow> hd sep \<notin> set t \<Longrightarrow> split_from sep acc (t @ sep) = [rev acc @ t, []]"
proof (induction t arbitrary: acc)
  case Nil
  then obtain c cs where s: "sep = c # cs" by (cases sep) auto
  show ?case unfolding s by simp
next
  case (Cons c t)
  then have "\<not> prefix sep (c # t @ sep)"
    by (cases sep) auto
  with Cons show ?case by simp
qed

lemma split_sep_last:
  "sep \<noteq> [] \<Longrightarrow> hd sep \<notin> set t \<Longrightarrow> split (t @ sep) sep = [t, []]"
  by (simp add: split_def split_from_sep_last)

lemma read_marker_port: "index (split (''port='' @ str_int p) ''port='') 1 = Inr (str_int p)"
  using split_sep_first [of "''port=''" "str_int p"] str_int_chars [of p]
  by (simp add: index_def)

lemma read_marker_vscode:
  "index (split (''VSCODE_PORT='' @ str_int p) ''VSCODE_PORT='') 1 = Inr (str_int p)"
  using split_sep_first [of "''VSCODE_PORT=''" "str_int p"] str_int_chars [of p]
  by (simp add: index_def)

lemma read_exposed_key: "index (split (str_int p @ ''/tcp'') ''/tcp'') 0 = Inr (str_int p)"
  using split_sep_last [of "''/tcp''" "str_int p"] str_int_chars [of p]
  by (simp add: index_def)

section \<open>Properties of attaching to a created container\<close>

lemma find_available_port_in_range:
  assumes "lo \<le> hi"
    and "\<forall>k. lo \<le> tcp lo hi k \<and> tcp lo hi k \<le> hi"
  shows "lo \<le> find_available_port tcp cl (lo, hi) N \<and> find_available_port tcp cl (lo, hi) N \<le> hi"
  using find_available_port_outcome [of N tcp cl lo hi] assms
  by (auto split: if_splits)

lemma allocate_ports_ranges:
  assumes "\<forall>i lo hi k. lo \<le> hi \<longrightarrow>
      lo \<le> find_available_tcp_port env i lo hi k \<and> find_available_tcp_port env i lo hi k \<le> hi"
  shows "\<exists>hp vp a1 a2.
      allocate_ports env self = self\<lparr>host_port := hp, container_port := hp, vscode_port := vp, app_ports := [a1, a2]\<rparr> \<and>
      30000 \<le> hp \<and> hp \<le> 39999 \<and> 40000 \<le> vp \<and> vp \<le> 49999 \<and>
      50000 \<le> a1 \<and> a1 \<le> 54999 \<and> 55000 \<le> a2 \<and> a2 \<le> 59999"
proof -
  have r: "\<And>i lo hi. lo \<le> hi \<Longrightarrow>
      lo \<le> find_available_port (find_available_tcp_port env i) (containers_list env i) (lo, hi) 5 \<and>
      find_available_port (find_available_tcp_port env i) (containers_list env i) (lo, hi) 5 \<le> hi"
    using assms by (intro find_available_port_in_range) auto
  let ?hp = "find_available_port (find_available_tcp_port env 0) (containers_list env 0) (30000, 39999) 5"
  let ?vp = "find_available_port (find_available_tcp_port env 1) (containers_list env 1) (40000, 49999) 5"
  let ?a1 = "find_available_port (find_available_tcp_port env 2) (containers_list env 2) (50000, 54999) 5"
  let ?a2 = "find_available_port (find_available_tcp_port env 3) (containers_list env 3) (55000, 59999) 5"
  have "allocate_ports env self =
      self\<lparr>host_port := ?hp, container_port := ?hp, vscode_port := ?vp, app_ports := [?a1, ?a2]\<rparr>"
    by (simp add: allocate_ports_def Let_def EXECUTION_SERVER_PORT_RANGE_def VSCODE_PORT_RANGE_def
        APP_PORT_RANGE_1_def APP_PORT_RANGE_2_def)
  moreover have "30000 \<le> ?hp \<and> ?hp \<le> 39999" using r [of 30000 39999 0] by simp
  moreover have "40000 \<le> ?vp \<and> ?vp \<le> 49999" using r [of 40000 49999 1] by simp
  moreover have "50000 \<le> ?a1 \<and> ?a1 \<le> 54999" using r [of 50000 54999 2] by simp
  moreover have "55000 \<le> ?a2 \<and> ?a2 \<le> 59999" using r [of 55000 59999 3] by simp
  ultimately show ?thesis by blast
qed

lemma read_env_markers:
  assumes "\<forall>e\<in>set es. (startswith e ''port='' \<longrightarrow> e = ''port='' @ str_int p) \<and>
      (startswith e ''VSCODE_PORT='' \<longrightarrow> e = ''VSCODE_PORT='' @ str_int v)"
  shows "\<exists>s'. read_env es s = (Inr (), s') \<and>
      host_port s' = (if \<exists>e\<in>set es. startswith e ''port='' then p else host_port s) \<and>
      container_port s' = (if \<exists>e\<in>set es. startswith e ''port='' then p else container_port s) \<and>
      vscode_port s' = (if \<exists>e\<in>set es. startswith e ''VSCODE_PORT='' then v else vscode_port s)"
  using assms
proof (induction es arbitrary: s)
  case Nil
  then show ?case by simp
next
  case (Cons e es)
  from Cons.prems have rest: "\<forall>e\<in>set es. (startswith e ''port='' \<longrightarrow> e = ''port='' @ str_int p) \<and>
      (startswith e ''VSCODE_PORT='' \<longrightarrow> e = ''VSCODE_PORT='' @ str_int v)"
    by simp
  have excl: "\<not> (startswith e ''port='' \<and> startswith e ''VSCODE_PORT='')"
    by (cases e) (auto simp: startswith_def)
  show ?case
  proof (cases "startswith e ''port=''")
    case True
    with Cons.prems have e: "e = ''port='' @ str_int p" by simp
    from True excl have nv: "\<not> startswith e ''VSCODE_PORT=''" by simp
    let ?s1 = "s\<lparr>host_port := p, container_port := p\<rparr>"
    have step: "read_env (e # es) s = read_env es ?s1"
      using True read_marker_port [of p] py_int_str_int [of p] unfolding e by simp
    from Cons.IH [OF rest, of ?s1] obtain s' where
      "read_env es ?s1 = (Inr (), s')"
      "host_port s' = (if \<exists>e\<in>set es. startswith e ''port='' then p else host_port ?s1)"
      "container_port s' = (if \<exists>e\<in>set es. startswith e ''port='' then p else container_port ?s1)"
      "vscode_port s' = (if \<exists>e\<in>set es. startswith e ''VSCODE_PORT='' then v else vscode_port ?s1)"
      by blast
    with step True nv show ?thesis by auto
  next
    case np: False
    show ?thesis
    proof (cases "startswith e ''VSCODE_PORT=''")
      case True
      with Cons.prems have e: "e = ''VSCODE_PORT='' @ str_int v" by simp
      let ?s1 = "s\<lparr>vscode_port := v\<rparr>"
      have step: "read_env (e # es) s = read_env es ?s1"
        using True np read_marker_vscode [of v] py_int_str_int [of v] unfolding e by simp
      from Cons.IH [OF rest, of ?s1] obtain s' where
        "read_env es ?s1 = (Inr (), s')"
        "host_port s' = (if \<exists>e\<in>set es. startswith e ''port='' then p else host_port ?s1)"
        "container_port s' = (if \<exists>e\<in>set es. startswith e ''port='' then p else container_port ?s1)"
        "vscode_port s' = (if \<exists>e\<in>set es. startswith e ''VSCODE_PORT='' then v else vscode_port ?s1)"
        by blast
      with step True np show ?thesis by auto
    next
      case False
      with np have step: "read_env (e # es) s = read_env es s" by simp
      from Cons.IH [OF rest, of s] obtain s' where
        "read_env es s = (Inr (), s')"
        "host_port s' = (if \<exists>e\<in>set es. startswith e ''port='' then p else host_port s)"
        "container_port s' = (if \<exists>e\<in>set es. startswith e ''port='' then p else container_port s)"
        "vscode_port s' = (if \<exists>e\<in>set es. startswith e ''VSCODE_PORT='' then v else vscode_port s)"
        by blast
      with step False np show ?thesis by auto
    qed
  qed
qed

lemma read_exposed_keys:
  "\<exists>s'. read_exposed (map (\<lambda>q. str_int q @ ''/tcp'') qs) s = (Inr (), s') \<and>
     host_port s' = host_port s \<and> container_port s' = container_port s \<and>
     vscode_port s' = vscode_port s \<and>
     app_ports s' = app_ports s @ filter (\<lambda>q. q \<noteq> host_port s \<and> q \<noteq> vscode_port s) qs"
proof (induction qs arbitrary: s)
  case Nil
  then show ?case by simp
next
  case (Cons q qs)
  show ?case
  proof (cases "q \<noteq> host_port s \<and> q \<noteq> vscode_port s")
    case True
    let ?s1 = "s\<lparr>app_ports := app_ports s @ [q]\<rparr>"
    have step: "read_exposed (map (\<lambda>q. str_int q @ ''/tcp'') (q # qs)) s =
        read_exposed (map (\<lambda>q. str_int q @ ''/tcp'') qs) ?s1"
      using True read_exposed_key [of q] py_int_str_int [of q] by simp
    from Cons.IH [of ?s1] obtain s' where
      "read_exposed (map (\<lambda>q. str_int q @ ''/tcp'') qs) ?s1 = (Inr (), s')"
      "host_port s' = host_port ?s1" "container_port s' = container_port ?s1"
      "vscode_port s' = vscode_port ?s1"
      "app_ports s' = app_ports ?s1 @ filter (\<lambda>q. q \<noteq> host_port ?s1 \<and> q \<noteq> vscode_port ?s1) qs"
      by blast
    with step True show ?thesis by simp
  next
    case False
    have step: "read_exposed (map (\<lambda>q. str_int q @ ''/tcp'') (q # qs)) s =
        read_exposed (map (\<lambda>q. str_int q @ ''/tcp'') qs) s"
      using False read_exposed_key [of q] py_int_str_int [of q] by auto
    from Cons.IH [of s] obtain s' where
      "read_exposed (map (\<lambda>q. str_int q @ ''/tcp'') qs) s = (Inr (), s')"
      "host_port s' = host_port s" "container_port s' = container_port s"
      "vscode_port s' = vscode_port s"
      "app_ports s' = app_ports s @ filter (\<lambda>q. q \<noteq> host_port s \<and> q \<noteq> vscode_port s) qs"
      by blast
    with step False show ?thesis by auto
  qed
qed

lemma set_update_subset: "set (AList.update k v al) \<subseteq> insert (k, v) (set al)"
  by (induction al) auto

lemma set_dict_update_subset: "set (dict_update d other) \<subseteq> set d \<union> set other"
proof (induction other arbitrary: d)
  case Nil
  then show ?case by (simp add: dict_update_def)
next
  case (Cons x other)
  have "dict_update d (x # other) = dict_update (AList.update (fst x) (snd x) d) other"
    by (simp add: dict_update_def)
  with Cons [of "AList.update (fst x) (snd x) d"] set_update_subset [of "fst x" "snd x" d]
  show ?case by (cases x) auto
qed

lemma mem_update_other: "(k, v) \<in> set al \<Longrightarrow> k \<noteq> k' \<Longrightarrow> (k, v) \<in> set (AList.update k' v' al)"
  by (induction al) auto

lemma mem_dict_update:
  "(k, v) \<in> set d \<Longrightarrow> k \<notin> fst ` set other \<Longrightarrow> (k, v) \<in> set (dict_update d other)"
proof (induction other arbitrary: d)
  case Nil
  then show ?case by (simp add: dict_update_def)
next
  case (Cons x other)
  have u: "dict_update d (x # other) = dict_update (AList.update (fst x) (snd x) d) other"
    by (simp add: dict_update_def)
  from Cons.prems have "k \<noteq> fst x" "k \<notin> fst ` set other" by auto
  with Cons.prems(1) Cons.IH [of "AList.update (fst x) (snd x) d"] u show ?case
    by (simp add: mem_update_other)
qed

lemma computed_environment_entries_all:
  "list_all (\<lambda>kv.
      (startswith (fst kv @ ''='' @ snd kv) ''port='' \<longrightarrow>
         fst kv @ ''='' @ snd kv = ''port='' @ str_int (container_port s)) \<and>
      (startswith (fst kv @ ''='' @ snd kv) ''VSCODE_PORT='' \<longrightarrow>
         fst kv @ ''='' @ snd kv = ''VSCODE_PORT='' @ str_int (vscode_port s)))
    (computed_environment cfg s)"
  by (simp add: computed_environment_def Let_def startswith_def)

lemma computed_environment_entries:
  assumes "(k, v) \<in> set (computed_environment cfg s)"
  shows "(startswith (k @ ''='' @ v) ''port='' \<longrightarrow> k @ ''='' @ v = ''port='' @ str_int (container_port s)) \<and>
    (startswith (k @ ''='' @ v) ''VSCODE_PORT='' \<longrightarrow>
       k @ ''='' @ v = ''VSCODE_PORT='' @ str_int (vscode_port s))"
  using computed_environment_entries_all [of s cfg] assms
  unfolding list_all_iff by force

lemma computed_environment_has_markers:
  "(''port'', str_int (container_port s)) \<in> set (computed_environment cfg s) \<and>
   (''VSCODE_PORT'', str_int (vscode_port s)) \<in> set (computed_environment cfg s)"
  by (simp add: computed_environment_def Let_def)

lemma env_entries_mem: "(k, v) \<in> set d \<Longrightarrow> k @ ''='' @ v \<in> set (env_entries d)"
proof -
  assume "(k, v) \<in> set d"
  then have "(\<lambda>kv. fst kv @ ''='' @ snd kv) (k, v) \<in> (\<lambda>kv. fst kv @ ''='' @ snd kv) ` set d"
    by (rule imageI)
  then show ?thesis by (simp add: env_entries_def)
qed

lemma marker_keys:
  "is_port_marker (''port'' @ ''='' @ v)" "is_port_marker (''VSCODE_PORT'' @ ''='' @ v)"
  by (simp_all add: is_port_marker_def startswith_def)

lemma environment_markers:
  assumes "\<forall>kv\<in>set (runtime_startup_env_vars cfg). \<not> is_port_marker (fst kv @ ''='' @ snd kv)"
  shows "(\<forall>e\<in>set (env_entries (environment_of cfg s)).
       (startswith e ''port='' \<longrightarrow> e = ''port='' @ str_int (container_port s)) \<and>
       (startswith e ''VSCODE_PORT='' \<longrightarrow> e = ''VSCODE_PORT='' @ str_int (vscode_port s))) \<and>
    ''port='' @ str_int (container_port s) \<in> set (env_entries (environment_of cfg s)) \<and>
    ''VSCODE_PORT='' @ str_int (vscode_port s) \<in> set (env_entries (environment_of cfg s))"
proof -
  have all: "\<forall>e\<in>set (env_entries (environment_of cfg s)).
       (startswith e ''port='' \<longrightarrow> e = ''port='' @ str_int (container_port s)) \<and>
       (startswith e ''VSCODE_PORT='' \<longrightarrow> e = ''VSCODE_PORT='' @ str_int (vscode_port s))"
  proof
    fix e assume "e \<in> set (env_entries (environment_of cfg s))"
    then obtain kv where e: "e = fst kv @ ''='' @ snd kv" and kv: "kv \<in> set (environment_of cfg s)"
      unfolding env_entries_def by (auto simp del: append_assoc)
    from kv set_dict_update_subset [of "computed_environment cfg s" "runtime_startup_env_vars cfg"]
    have "kv \<in> set (computed_environment cfg s) \<or> kv \<in> set (runtime_startup_env_vars cfg)"
      unfolding environment_of_def by blast
    then show "(startswith e ''port='' \<longrightarrow> e = ''port='' @ str_int (container_port s)) \<and>
       (startswith e ''VSCODE_PORT='' \<longrightarrow> e = ''VSCODE_PORT='' @ str_int (vscode_port s))"
    proof
      assume "kv \<in> set (computed_environment cfg s)"
      then have "(fst kv, snd kv) \<in> set (computed_environment cfg s)" by simp
      from computed_environment_entries [OF this] show ?thesis unfolding e .
    next
      assume "kv \<in> set (runtime_startup_env_vars cfg)"
      from bspec [OF assms this] have "\<not> is_port_marker e" unfolding e .
      then show ?thesis unfolding is_port_marker_def by blast
    qed
  qed
  have nokey: "k \<notin> fst ` set (runtime_startup_env_vars cfg)"
    if m: "\<And>v. is_port_marker (k @ ''='' @ v)" for k
  proof
    assume "k \<in> fst ` set (runtime_startup_env_vars cfg)"
    then obtain kv where kv: "kv \<in> set (runtime_startup_env_vars cfg)" and k: "k = fst kv"
      by blast
    from bspec [OF assms kv] m [of "snd kv"] show False unfolding k by blast
  qed
  have c: "(''port'', str_int (container_port s)) \<in> set (computed_environment cfg s)"
      "(''VSCODE_PORT'', str_int (vscode_port s)) \<in> set (computed_environment cfg s)"
    using computed_environment_has_markers [of s cfg] by blast+
  have "(''port'', str_int (container_port s)) \<in> set (environment_of cfg s)"
    unfolding environment_of_def using c(1) nokey [OF marker_keys(1)] by (rule mem_dict_update)
  from env_entries_mem [OF this]
  have p: "''port='' @ str_int (container_port s) \<in> set (env_entries (environment_of cfg s))"
    by simp
  have "(''VSCODE_PORT'', str_int (vscode_port s)) \<in> set (environment_of cfg s)"
    unfolding environment_of_def using c(2) nokey [OF marker_keys(2)] by (rule mem_dict_update)
  from env_entries_mem [OF this]
  have v: "''VSCODE_PORT='' @ str_int (vscode_port s) \<in> set (env_entries (environment_of cfg s))"
    by simp
  from all p v show ?thesis by blast
qed

lemma str_int_eq: "(str_int a = str_int b) = (a = b)"
  by (auto dest: str_int_inj)

lemma tcp_key_eq: "(str_int a @ ''/tcp'' = str_int b @ ''/tcp'') = (a = b)"
  by (auto dest: str_int_inj)

lemma port_mapping_keys:
  assumes "\<not> use_host_network cfg"
    and "container_port s = hp" and "vscode_port s = vp" and "app_ports s = [a1, a2]"
    and "hp \<noteq> vp" "hp \<noteq> a1" "hp \<noteq> a2" "vp \<noteq> a1" "vp \<noteq> a2" "a1 \<noteq> a2"
  shows "map_option (map fst) (port_mapping_of cfg s) =
    Some (map (\<lambda>q. str_int q @ ''/tcp'') (if vscode_enabled s then [hp, vp, a1, a2] else [hp, a1, a2]))"
  using assms
  by (simp add: port_mapping_of_def Let_def str_int_eq)

lemma init_pass_created:
  assumes "init_pass cfg env s0 = (Returned (Inr ()), created, t)"
  shows "\<exists>c spec url. \<not> use_host_network cfg \<and> containers_run env spec = Inr c \<and>
      created = (allocate_ports env s0)\<lparr>api_url := url, container := Some c\<rparr> \<and>
      environment spec = environment_of cfg created \<and>
      ports spec = port_mapping_of cfg created"
proof -
  obtain nm eh where rn: "resolve_network cfg (docker_version env) = (nm, eh)"
    by (cases "resolve_network cfg (docker_version env)") auto
  have e: "\<And>s c. environment_of cfg (s\<lparr>container := c\<rparr>) = environment_of cfg s"
    "\<And>s u. environment_of cfg (s\<lparr>api_url := u\<rparr>) = environment_of cfg s"
    "\<And>s c. port_mapping_of cfg (s\<lparr>container := c\<rparr>) = port_mapping_of cfg s"
    "\<And>s u. port_mapping_of cfg (s\<lparr>api_url := u\<rparr>) = port_mapping_of cfg s"
    by (simp_all add: environment_of_def computed_environment_def port_mapping_of_def Let_def)
  from assms rn have h: "\<not> use_host_network cfg"
    by (auto simp: init_pass_def Let_def resolve_network_def split: if_splits)
  from assms rn obtain hosts where eh: "eh = Some hosts"
    by (cases eh) (auto simp: init_pass_def Let_def)
  let ?s1 = "allocate_ports env s0"
  let ?url = "''http://'' @ hostname_of cfg @ '':'' @ str_int (container_port ?s1)"
  let ?s2 = "?s1\<lparr>api_url := ?url\<rparr>"
  let ?spec = "\<lparr>image = runtime_container_image ?s2,
      command = startup_command env (container_port ?s2),
      network_mode = nm, ports = port_mapping_of cfg ?s2,
      name = container_name ?s2, environment = environment_of cfg ?s2,
      volumes = volumes_of cfg, extra_hosts = hosts,
      device_requests = enable_gpu cfg\<rparr>"
  from assms rn eh obtain c where c: "containers_run env ?spec = Inr c"
    and cr: "created = ?s2\<lparr>container := Some c\<rparr>"
    by (auto simp: init_pass_def Let_def split: sum.splits if_splits)
  have "environment ?spec = environment_of cfg created" "ports ?spec = port_mapping_of cfg created"
    using cr by (simp_all add: e)
  with h c cr show ?thesis by blast
qed

lemma init_container_created:
  "init_container cfg envs self = Some (Inr (), created, tr) \<Longrightarrow>
   \<exists>env\<in>set envs. \<exists>s0 t. init_pass cfg env s0 = (Returned (Inr ()), created, t)"
proof (induction envs arbitrary: self tr)
  case Nil
  then show ?case by simp
next
  case (Cons env envs)
  obtain e s1 t1 where p: "init_pass cfg env self = (e, s1, t1)"
    by (cases "init_pass cfg env self") auto
  show ?case
  proof (cases e)
    case (Returned x)
    with Cons.prems p have "init_pass cfg env self = (Returned (Inr ()), created, t1)" by simp
    then show ?thesis by auto
  next
    case NameConflict
    with Cons.prems p obtain t2 where "init_container cfg envs s1 = Some (Inr (), created, t2)"
      by (auto split: option.splits)
    from Cons.IH [OF this] show ?thesis by auto
  qed
qed

lemma attach_to_declared:
  assumes d: "declares c spec"
    and env: "environment spec = environment_of cfg created"
    and pm: "ports spec = port_mapping_of cfg created"
    and nh: "\<not> use_host_network cfg"
    and st: "\<forall>kv\<in>set (runtime_startup_env_vars cfg). \<not> is_port_marker (fst kv @ ''='' @ snd kv)"
    and hp: "host_port created = hp" "container_port created = hp"
    and vp: "vscode_port created = vp" and ap: "app_ports created = [a1, a2]"
    and r: "30000 \<le> hp" "hp \<le> 39999" "40000 \<le> vp" "vp \<le> 49999"
      "50000 \<le> a1" "a1 \<le> 54999" "55000 \<le> a2" "a2 \<le> 59999"
  shows "\<exists>attached tr'. attach_to_container cfg' (Inr c) fresh = (Inr (), attached, tr') \<and>
      port_assignment attached = port_assignment created"
proof -
  let ?ee = "env_entries (environment_of cfg created)"
  let ?extra = "drop (length (environment spec)) (Env c)"
  from d have t: "take (length (environment spec)) (Env c) = ?ee"
    and x: "list_all (\<lambda>e. \<not> is_port_marker e) ?extra"
    and xp: "ExposedPorts c = map_option (map fst) (port_mapping_of cfg created)"
    unfolding declares_def env pm by simp_all
  have envc: "Env c = ?ee @ ?extra"
    using append_take_drop_id [of "length (environment spec)" "Env c"] t by simp
  note em = environment_markers [OF st, of created, unfolded hp(2) vp]
  note m = em [THEN conjunct1]
  note mp = em [THEN conjunct2, THEN conjunct1]
  note mv = em [THEN conjunct2, THEN conjunct2]
  have mx: "\<forall>e\<in>set ?extra. (startswith e ''port='' \<longrightarrow> e = ''port='' @ str_int hp) \<and>
       (startswith e ''VSCODE_PORT='' \<longrightarrow> e = ''VSCODE_PORT='' @ str_int vp)"
  proof
    fix e assume "e \<in> set ?extra"
    with x have "\<not> is_port_marker e" by (simp add: list_all_iff)
    then have "\<not> startswith e ''port=''" "\<not> startswith e ''VSCODE_PORT=''"
      by (simp_all add: is_port_marker_def)
    then show "(startswith e ''port='' \<longrightarrow> e = ''port='' @ str_int hp) \<and>
       (startswith e ''VSCODE_PORT='' \<longrightarrow> e = ''VSCODE_PORT='' @ str_int vp)"
      by simp
  qed
  have all: "\<forall>e\<in>set (Env c). (startswith e ''port='' \<longrightarrow> e = ''port='' @ str_int hp) \<and>
       (startswith e ''VSCODE_PORT='' \<longrightarrow> e = ''VSCODE_PORT='' @ str_int vp)"
  proof
    fix e assume "e \<in> set (Env c)"
    then have "e \<in> set ?ee \<or> e \<in> set ?extra" by (subst (asm) envc) simp
    then show "(startswith e ''port='' \<longrightarrow> e = ''port='' @ str_int hp) \<and>
       (startswith e ''VSCODE_PORT='' \<longrightarrow> e = ''VSCODE_PORT='' @ str_int vp)"
      using m mx by (elim disjE) (erule bspec [rotated], assumption)+
  qed
  have sp: "startswith (''port='' @ str_int hp) ''port=''"
    and sv: "startswith (''VSCODE_PORT='' @ str_int vp) ''VSCODE_PORT=''"
    by (simp_all add: startswith_def)
  have inc: "\<And>e. e \<in> set ?ee \<Longrightarrow> e \<in> set (Env c)"
    by (subst envc) simp
  have ep: "\<exists>e\<in>set (Env c). startswith e ''port=''"
    using sp inc [OF mp]
    by (rule bexI [where P = "\<lambda>e. startswith e ''port=''" and x = "''port='' @ str_int hp"])
  have ev: "\<exists>e\<in>set (Env c). startswith e ''VSCODE_PORT=''"
    using sv inc [OF mv]
    by (rule bexI [where P = "\<lambda>e. startswith e ''VSCODE_PORT=''"
          and x = "''VSCODE_PORT='' @ str_int vp"])
  let ?self1 = "fresh\<lparr>container := Some c\<rparr>"
  from read_env_markers [OF all, of ?self1] obtain s2 where
    re: "read_env (Env c) ?self1 = (Inr (), s2)"
    and h1: "host_port s2 = (if \<exists>e\<in>set (Env c). startswith e ''port='' then hp else host_port ?self1)"
    and h2: "container_port s2 =
      (if \<exists>e\<in>set (Env c). startswith e ''port='' then hp else container_port ?self1)"
    and h3: "vscode_port s2 =
      (if \<exists>e\<in>set (Env c). startswith e ''VSCODE_PORT='' then vp else vscode_port ?self1)"
    by blast
  from h1 h2 ep have s2a: "host_port s2 = hp" "container_port s2 = hp"
    by (simp_all only: if_True)
  from h3 ev have s2b: "vscode_port s2 = vp"
    by (simp only: if_True)
  let ?qs = "if vscode_enabled created then [hp, vp, a1, a2] else [hp, a1, a2]"
  from r have ne: "hp \<noteq> vp" "hp \<noteq> a1" "hp \<noteq> a2" "vp \<noteq> a1" "vp \<noteq> a2" "a1 \<noteq> a2"
    by simp_all
  from port_mapping_keys [OF nh hp(2) vp ap ne]
  have keys: "ExposedPorts c = Some (map (\<lambda>q. str_int q @ ''/tcp'') ?qs)"
    by (simp only: xp)
  let ?s2' = "s2\<lparr>app_ports := []\<rparr>"
  have s2': "host_port ?s2' = hp" "vscode_port ?s2' = vp" "container_port ?s2' = hp" "app_ports ?s2' = []"
    using s2a s2b by simp_all
  from read_exposed_keys [of ?qs ?s2'] obtain s3 where
    rx: "read_exposed (map (\<lambda>q. str_int q @ ''/tcp'') ?qs) ?s2' = (Inr (), s3)"
    and g1: "host_port s3 = host_port ?s2'" and g2: "container_port s3 = container_port ?s2'"
    and g3: "vscode_port s3 = vscode_port ?s2'"
    and g4: "app_ports s3 = app_ports ?s2' @ filter (\<lambda>q. q \<noteq> host_port ?s2' \<and> q \<noteq> vscode_port ?s2') ?qs"
    by blast
  from g1 g2 g3 s2' have s3: "host_port s3 = hp" "container_port s3 = hp" "vscode_port s3 = vp"
    by simp_all
  from g4 have "app_ports s3 = filter (\<lambda>q. q \<noteq> hp \<and> q \<noteq> vp) ?qs"
    unfolding s2' by simp
  with ne have apps: "app_ports s3 = [a1, a2]" by auto
  let ?attached = "s3\<lparr>api_url := local_runtime_url cfg' @ '':'' @ str_int (container_port s3)\<rparr>"
  have "attach_to_container cfg' (Inr c) fresh =
      (Inr (), ?attached,
       [ContainersGet (container_name fresh)] @ (if status c = ''exited'' then [ContainerStart] else []))"
    by (simp add: attach_to_container_def Let_def re keys rx)
  moreover have "port_assignment ?attached = port_assignment created"
    using s3 apps hp vp ap by (simp add: port_assignment_def)
  ultimately show ?thesis by blast
qed

text \<open>
  C5, as amended. Take a container that \<open>_init_container\<close> created, with the port
  queries drawing within the range asked, the engine reporting the container as
  declared, and no caller-supplied startup entry that reads as a port marker (none
  keyed \<open>port\<close> or \<open>VSCODE_PORT\<close> in particular). Then \<open>_attach_to_container\<close>, from any
  runtime object and under any configuration, returns with the Port Assignment of the
  creation: the same control port, the same editor port, and the same application
  ports in the same order. It reads them from the \<open>port=\<close> and \<open>VSCODE_PORT=\<close> entries
  and from the exposed ports; it has no port query to draw a port from.
\<close>

theorem attach_reconstructs_port_assignment:
  assumes "init_container cfg envs self = Some (Inr (), created, tr)"
    and "\<forall>env\<in>set envs. \<forall>spec c. containers_run env spec = Inr c \<longrightarrow> declares c spec"
    and "\<forall>env\<in>set envs. \<forall>i lo hi k. lo \<le> hi \<longrightarrow>
      lo \<le> find_available_tcp_port env i lo hi k \<and> find_available_tcp_port env i lo hi k \<le> hi"
    and "\<forall>kv\<in>set (runtime_startup_env_vars cfg). \<not> is_port_marker (fst kv @ ''='' @ snd kv)"
  shows "\<exists>c attached tr'. container created = Some c \<and>
      attach_to_container cfg' (Inr c) fresh = (Inr (), attached, tr') \<and>
      port_assignment attached = port_assignment created"
proof -
  from init_container_created [OF assms(1)] obtain env s0 t
    where env: "env \<in> set envs" and p: "init_pass cfg env s0 = (Returned (Inr ()), created, t)"
    by blast
  from init_pass_created [OF p] obtain c spec url
    where nh: "\<not> use_host_network cfg" and run: "containers_run env spec = Inr c"
      and cr: "created = (allocate_ports env s0)\<lparr>api_url := url, container := Some c\<rparr>"
      and e: "environment spec = environment_of cfg created"
      and pm: "ports spec = port_mapping_of cfg created"
    by blast
  from assms(2) env run have d: "declares c spec" by blast
  from assms(3) env have "\<forall>i lo hi k. lo \<le> hi \<longrightarrow>
      lo \<le> find_available_tcp_port env i lo hi k \<and> find_available_tcp_port env i lo hi k \<le> hi"
    by blast
  from allocate_ports_ranges [OF this, of s0] obtain hp vp a1 a2
    where al: "allocate_ports env s0 =
        s0\<lparr>host_port := hp, container_port := hp, vscode_port := vp, app_ports := [a1, a2]\<rparr>"
      and r: "30000 \<le> hp" "hp \<le> 39999" "40000 \<le> vp" "vp \<le> 49999"
        "50000 \<le> a1" "a1 \<le> 54999" "55000 \<le> a2" "a2 \<le> 59999"
    by blast
  from cr al have f: "host_port created = hp" "container_port created = hp"
      "vscode_port created = vp" "app_ports created = [a1, a2]" "container created = Some c"
    by simp_all
  from attach_to_declared [OF d e pm nh assms(4) f(1,2,3,4) r, of cfg' fresh] f(5)
  show ?thesis by blast
qed

lemma find_available_port_first:
  assumes "\<not> is_port_in_use_docker (cl 0) (tcp lo hi 0)" and "0 < N"
  shows "find_available_port tcp cl (lo, hi) N = tcp lo hi 0"
proof -
  from assms(2) obtain n where "nat N = Suc n" by (cases "nat N") auto
  with assms(1) show ?thesis by (simp add: find_available_port_def)
qed

lemma sample_allocate_ports:
  "allocate_ports (sample_init_env version run) self =
     self\<lparr>host_port := 30001, container_port := 30001, vscode_port := 40001,
          app_ports := [50001, 55001]\<rparr>"
  by (simp add: allocate_ports_def Let_def sample_init_env_def find_available_port_first
      EXECUTION_SERVER_PORT_RANGE_def VSCODE_PORT_RANGE_def APP_PORT_RANGE_1_def APP_PORT_RANGE_2_def)

lemma run_declared_declares: "run_declared spec = Inr c \<Longrightarrow> declares c spec"
  by (auto simp: run_declared_def declares_def env_entries_def is_port_marker_def startswith_def)

lemma sample_created:
  assumes "\<not> use_host_network cfg"
  shows "\<exists>created tr c spec.
      init_container cfg [sample_init_env engine_version run_declared] sample_runtime =
        Some (Inr (), created, tr) \<and>
      port_assignment created = (30001, 30001, 40001, [50001, 55001]) \<and>
      vscode_enabled created \<and>
      container created = Some c \<and> run_declared spec = Inr c \<and>
      environment spec = environment_of cfg created \<and> ports spec = port_mapping_of cfg created"
proof -
  let ?env = "sample_init_env engine_version run_declared"
  have rn: "resolve_network cfg (docker_version ?env) =
      (Some ''bridge'', Some [(''host.docker.internal'', ''host-gateway'')])"
    using assms
    by (simp add: resolve_network_def sample_init_env_def engine_version_def is_docker_desktop_def
        lower_def lower_char_def str_in_def sublist_Cons_right)
  obtain r created tr where p: "init_pass cfg ?env sample_runtime = (r, created, tr)"
    by (cases "init_pass cfg ?env sample_runtime") auto
  have run: "containers_run ?env = run_declared" by (simp add: sample_init_env_def)
  from p have r: "r = Returned (Inr ())"
    unfolding init_pass_def Let_def rn run
    by (auto simp: run_declared_def split: if_splits)
  with p have p': "init_pass cfg ?env sample_runtime = (Returned (Inr ()), created, tr)" by simp
  from init_pass_created [OF p'] obtain c spec url where
    c: "containers_run ?env spec = Inr c"
      "created = (allocate_ports ?env sample_runtime)\<lparr>api_url := url, container := Some c\<rparr>"
      "environment spec = environment_of cfg created" "ports spec = port_mapping_of cfg created"
    by blast
  from c(2) have "port_assignment created = (30001, 30001, 40001, [50001, 55001])"
      "vscode_enabled created" "container created = Some c"
    by (simp_all add: sample_allocate_ports port_assignment_def sample_runtime_def)
  with p' c run show ?thesis by auto
qed


theorem attach_reconstructs_port_assignment_witness:
  "created_then_attached sample_config [sample_init_env engine_version run_declared]
     sample_runtime sample_runtime =
   Some ((30001, 30001, 40001, [50001, 55001]), (30001, 30001, 40001, [50001, 55001]))"
proof -
  let ?env = "sample_init_env engine_version run_declared"
  have nh: "\<not> use_host_network sample_config" by (simp add: sample_config_def)
  from sample_created [OF nh] obtain created tr where
    i: "init_container sample_config [?env] sample_runtime = Some (Inr (), created, tr)"
    and pa: "port_assignment created = (30001, 30001, 40001, [50001, 55001])"
    by blast
  have h2: "\<forall>env\<in>set [?env]. \<forall>spec c. containers_run env spec = Inr c \<longrightarrow> declares c spec"
    by (simp add: sample_init_env_def run_declared_declares)
  have h3: "\<forall>env\<in>set [?env]. \<forall>i lo hi k. lo \<le> hi \<longrightarrow>
      lo \<le> find_available_tcp_port env i lo hi k \<and> find_available_tcp_port env i lo hi k \<le> hi"
    by (simp add: sample_init_env_def)
  have h4: "\<forall>kv\<in>set (runtime_startup_env_vars sample_config).
      \<not> is_port_marker (fst kv @ ''='' @ snd kv)"
    by (simp add: sample_config_def)
  from attach_reconstructs_port_assignment [OF i h2 h3 h4, of sample_config sample_runtime]
  obtain c attached tr' where "container created = Some c"
    "attach_to_container sample_config (Inr c) sample_runtime = (Inr (), attached, tr')"
    "port_assignment attached = port_assignment created"
    by blast
  with i pa show ?thesis
    by (simp add: created_then_attached_def)
qed

lemma sample_created_override:
  "\<exists>created tr.
      init_container (sample_config\<lparr>runtime_startup_env_vars := [(''port'', ''1'')]\<rparr>)
        [sample_init_env engine_version run_declared] sample_runtime = Some (Inr (), created, tr) \<and>
      port_assignment created = (30001, 30001, 40001, [50001, 55001]) \<and>
      container created =
        Some \<lparr>status = ''running'',
              Env = [''port=1'', ''PYTHONUNBUFFERED=1'', ''VSCODE_PORT=40001'',
                     ''PIP_BREAK_SYSTEM_PACKAGES=1'', ''HOST_HOSTNAME=host.docker.internal'',
                     ''DOCKER_DEFAULT_PLATFORM=linux/amd64'', ''DOCKER_BUILDKIT=1'',
                     ''DOCKER_DNS=8.8.8.8'', ''PATH=/usr/local/bin:/usr/bin''],
              ExposedPorts = Some [''30001/tcp'', ''40001/tcp'', ''50001/tcp'', ''55001/tcp''],
              NetworkSettings = Some \<lparr>IPAddress = Some ''172.17.0.2'', Gateway = Some ''172.17.0.1''\<rparr>\<rparr>"
proof -
  let ?cfg = "sample_config\<lparr>runtime_startup_env_vars := [(''port'', ''1'')]\<rparr>"
  have nh: "\<not> use_host_network ?cfg" by (simp add: sample_config_def)
  from sample_created [OF nh] obtain created tr c spec where
    i: "init_container ?cfg [sample_init_env engine_version run_declared] sample_runtime =
        Some (Inr (), created, tr)"
    and pa: "port_assignment created = (30001, 30001, 40001, [50001, 55001])"
    and ve: "vscode_enabled created"
    and c: "container created = Some c" "run_declared spec = Inr c"
      "environment spec = environment_of ?cfg created" "ports spec = port_mapping_of ?cfg created"
    by blast
  from pa have f: "host_port created = 30001" "container_port created = 30001"
      "vscode_port created = 40001" "app_ports created = [50001, 55001]"
    by (simp_all add: port_assignment_def)
  have s: "str_int 30001 = ''30001''" "str_int 40001 = ''40001''"
      "str_int 50001 = ''50001''" "str_int 55001 = ''55001''"
    by (simp_all add: str_int_def str_nat.simps digit_char_def)
  have e: "env_entries (environment_of ?cfg created) =
      [''port=1'', ''PYTHONUNBUFFERED=1'', ''VSCODE_PORT=40001'',
       ''PIP_BREAK_SYSTEM_PACKAGES=1'', ''HOST_HOSTNAME=host.docker.internal'',
       ''DOCKER_DEFAULT_PLATFORM=linux/amd64'', ''DOCKER_BUILDKIT=1'', ''DOCKER_DNS=8.8.8.8'']"
    by (simp add: environment_of_def computed_environment_def dict_update_def env_entries_def
        Let_def f s sample_config_def or_default_def)
  have m: "map_option (map fst) (port_mapping_of ?cfg created) =
      Some [''30001/tcp'', ''40001/tcp'', ''50001/tcp'', ''55001/tcp'']"
    by (simp add: port_mapping_of_def Let_def f s ve sample_config_def)
  from c(2) have "c = \<lparr>status = ''running'',
      Env = env_entries (environment spec) @ [''PATH=/usr/local/bin:/usr/bin''],
      ExposedPorts = map_option (map fst) (ports spec),
      NetworkSettings = Some \<lparr>IPAddress = Some ''172.17.0.2'', Gateway = Some ''172.17.0.1''\<rparr>\<rparr>"
    by (simp add: run_declared_def)
  with c(1,3,4) e m i pa show ?thesis by simp
qed

text \<open>
  The claim as stated holds for every created container. With a caller-supplied
  startup entry keyed \<open>port\<close>, the container's marker carries the caller's value:
  attaching reads control port 1 for a container created on port 30001, and takes the
  real control port for an application port.
\<close>

theorem attach_after_port_override_counterexample:
  "created_then_attached (sample_config\<lparr>runtime_startup_env_vars := [(''port'', ''1'')]\<rparr>)
     [sample_init_env engine_version run_declared] sample_runtime sample_runtime =
   Some ((30001, 30001, 40001, [50001, 55001]), (1, 1, 40001, [30001, 50001, 55001]))"
proof -
  let ?cfg = "sample_config\<lparr>runtime_startup_env_vars := [(''port'', ''1'')]\<rparr>"
  let ?c = "\<lparr>status = ''running'',
              Env = [''port=1'', ''PYTHONUNBUFFERED=1'', ''VSCODE_PORT=40001'',
                     ''PIP_BREAK_SYSTEM_PACKAGES=1'', ''HOST_HOSTNAME=host.docker.internal'',
                     ''DOCKER_DEFAULT_PLATFORM=linux/amd64'', ''DOCKER_BUILDKIT=1'',
                     ''DOCKER_DNS=8.8.8.8'', ''PATH=/usr/local/bin:/usr/bin''],
              ExposedPorts = Some [''30001/tcp'', ''40001/tcp'', ''50001/tcp'', ''55001/tcp''],
              NetworkSettings = Some \<lparr>IPAddress = Some ''172.17.0.2'', Gateway = Some ''172.17.0.1''\<rparr>\<rparr>"
  from sample_created_override obtain created tr where
    i: "init_container ?cfg [sample_init_env engine_version run_declared] sample_runtime =
        Some (Inr (), created, tr)"
    and pa: "port_assignment created = (30001, 30001, 40001, [50001, 55001])"
    and c: "container created = Some ?c"
    by blast
  have a: "\<exists>attached tr'. attach_to_container ?cfg (Inr ?c) sample_runtime = (Inr (), attached, tr') \<and>
      port_assignment attached = (1, 1, 40001, [30001, 50001, 55001])"
    by (simp add: attach_to_container_def sample_runtime_def sample_config_def port_assignment_def
        startswith_def split_def index_def py_int_def strip_def is_space_def parse_decimal_def
        digit_val_def Let_def)
  with i pa c show ?thesis
    by (auto simp: created_then_attached_def)
qed

end
